theory Spec2Isabelle
  imports Main "HOL-Library.Word" "HOL-Library.Signed_Division"
begin

unbundle bit_operations_syntax

section \<open>The container codec of package file (src/file/file.go)\<close>

text \<open>
  The file holds two revisions of the package, one after the other. The model follows
  the later one (from \<^verbatim>\<open>func init()\<close> on), which is the one whose
  handle has \<^verbatim>\<open>SetReadMode\<close>, the nil checks and the test
  \<^verbatim>\<open>TestBadRead\<close>.

  Go values are modelled as follows. A byte is an 8-bit word, \<^verbatim>\<open>uint\<close>
  and \<^verbatim>\<open>uint64\<close> are 64-bit words (a 64-bit platform), an
  \<^verbatim>\<open>int64\<close> is a 64-bit word read with \<open>sint\<close>. A Go string is its
  sequence of bytes. Several results of a Go function are a tuple, its
  \<^verbatim>\<open>error\<close> result an \<open>error option\<close> (\<open>None\<close> is
  \<^verbatim>\<open>nil\<close>); named results keep what was assigned before an early
  return. A panic is the value \<open>Panic\<close> of the type \<open>outcome\<close>.
\<close>

type_synonym byte = "8 word"
type_synonym uint = "64 word"

datatype error =
    EOF
  | ErrUnexpectedEOF
  | ErrGzipHeader
  | ErrGzipChecksum
  | ErrNoFAFA
  | ErrNilDstSrc
  | ErrNilReader
  | ErrOther string

datatype panic =
    PanicError error
  | PanicBadMode
  | PanicNilDereference

datatype 'a outcome = Return 'a | Panic panic

subsection \<open>time.Time\<close>

text \<open>
  A \<^verbatim>\<open>time.Time\<close> is the number of whole seconds since the Unix epoch
  and the nanoseconds within that second (from 0 to 999999999).
  \<^verbatim>\<open>UnixNano\<close> computes \<^verbatim>\<open>sec*1e9 + nsec\<close> in
  \<^verbatim>\<open>int64\<close>, which wraps around outside the years 1678 to 2262.
  \<^verbatim>\<open>time.Unix(sec, nsec)\<close> carries whole seconds of its second argument
  into the first.
\<close>

record Time =
  unixSec :: int
  nsec :: int

definition UnixNano :: "Time \<Rightarrow> 64 word" where
  "UnixNano t = word_of_int (unixSec t * 1000000000 + nsec t)"

definition time_Unix :: "int \<Rightarrow> int \<Rightarrow> Time" where
  "time_Unix s n = \<lparr>unixSec = s + n div 1000000000, nsec = n mod 1000000000\<rparr>"

subsection \<open>In-memory streams\<close>

text \<open>
  A reader holds the bytes not read yet. An \<^verbatim>\<open>io.Reader\<close> may return
  fewer bytes than the buffer holds, with a nil error, also when more are to come.
  \<open>perRead\<close> says how many bytes a \<^verbatim>\<open>Read\<close> copies at most:
  \<open>None\<close> is a reader that fills the buffer as far as bytes are left, as
  \<^verbatim>\<open>bytes.Reader\<close> and \<^verbatim>\<open>bytes.Buffer\<close> do;
  \<open>Some k\<close> is a reader that copies at most \<open>k + 1\<close> bytes in a call, as a
  network stream or \<^verbatim>\<open>iotest.OneByteReader\<close> (\<open>Some 0\<close>) does.
  \<^verbatim>\<open>Read(p)\<close> returns the count of the bytes copied with a nil error;
  it returns \<^verbatim>\<open>io.EOF\<close> only when nothing is left.
  \<^verbatim>\<open>bytes.Reader\<close> then returns EOF for every \<open>p\<close>,
  \<^verbatim>\<open>bytes.Buffer\<close> and \<^verbatim>\<open>iotest.OneByteReader\<close> return
  \<^verbatim>\<open>0, nil\<close> when \<open>p\<close> is empty. \<open>closer\<close> is \<open>None\<close>
  for a reader with no \<^verbatim>\<open>Close\<close> method and \<open>Some r\<close> for one
  whose \<^verbatim>\<open>Close\<close> returns \<open>r\<close>.
  \<open>io_Read\<close> returns the bytes copied; \<open>fill\<close> is the content of a buffer
  made by \<^verbatim>\<open>make([]byte, len)\<close> after they were copied into it.
  A writer is a \<^verbatim>\<open>bytes.Buffer\<close>: the bytes written so far; its writes
  do not fail.
\<close>

datatype reader_kind = BytesReader | BytesBuffer

record reader =
  unread :: "byte list"
  kind :: reader_kind
  closer :: "error option option"
  perRead :: "nat option"

type_synonym writer = "byte list"

definition bytes_NewReader :: "byte list \<Rightarrow> reader" where
  "bytes_NewReader bs =
     \<lparr>unread = bs, kind = BytesReader, closer = None, perRead = None\<rparr>"

definition bytes_NewBuffer :: "byte list \<Rightarrow> reader" where
  "bytes_NewBuffer bs =
     \<lparr>unread = bs, kind = BytesBuffer, closer = None, perRead = None\<rparr>"

definition iotest_OneByteReader :: "byte list \<Rightarrow> reader" where
  "iotest_OneByteReader bs =
     \<lparr>unread = bs, kind = BytesBuffer, closer = None, perRead = Some 0\<rparr>"

definition readCount :: "nat \<Rightarrow> reader \<Rightarrow> nat" where
  "readCount len r = (case perRead r of None \<Rightarrow> len | Some k \<Rightarrow> min len (Suc k))"

definition io_Read :: "nat \<Rightarrow> reader \<Rightarrow> (byte list \<times> error option) \<times> reader" where
  "io_Read len r =
     (if unread r = [] then
        (if kind r = BytesBuffer \<and> len = 0 then (([], None), r) else (([], Some EOF), r))
      else ((take (readCount len r) (unread r), None),
            r\<lparr>unread := drop (readCount len r) (unread r)\<rparr>))"

definition fill :: "nat \<Rightarrow> byte list \<Rightarrow> byte list" where
  "fill len copied = copied @ replicate (len - length copied) 0"

definition ReadByte :: "reader \<Rightarrow> (byte \<times> error option) \<times> reader" where
  "ReadByte r =
     (case unread r of
        [] \<Rightarrow> ((0, Some EOF), r)
      | b # bs \<Rightarrow> ((b, None), r\<lparr>unread := bs\<rparr>))"

subsection \<open>Numbers and length-prefixed strings\<close>

text \<open>
  \<^verbatim>\<open>writeNumber\<close> appends \<open>byteCount\<close> bytes, the most significant
  first; \<open>numberBytes\<close> is the content of its local buffer after the loop.
  \<^verbatim>\<open>readNumber\<close> makes one \<^verbatim>\<open>Read\<close> into a buffer of
  \<open>byteCount\<close> bytes, drops the count that \<^verbatim>\<open>Read\<close> returns, and
  combines all \<open>byteCount\<close> bytes of the buffer; \<open>orBytes\<close> is its loop.
\<close>

definition numberBytes :: "uint \<Rightarrow> nat \<Rightarrow> byte list" where
  "numberBytes number byteCount =
     map (\<lambda>i. ucast (drop_bit (8 * (byteCount - i - 1)) number)) [0..<byteCount]"

definition writeNumber :: "uint \<Rightarrow> nat \<Rightarrow> writer \<Rightarrow> (int \<times> error option) \<times> writer" where
  "writeNumber number byteCount out =
     ((int (length (numberBytes number byteCount)), None), out @ numberBytes number byteCount)"

definition orBytes :: "nat \<Rightarrow> byte list \<Rightarrow> 64 word" where
  "orBytes byteCount bytez =
     fold (\<lambda>i number. number OR push_bit (8 * (byteCount - i - 1)) (ucast (bytez ! i)))
       [0..<byteCount] 0"

definition readNumber :: "nat \<Rightarrow> reader \<Rightarrow> (64 word \<times> error option) \<times> reader" where
  "readNumber byteCount inp =
     (case io_Read byteCount inp of
        ((copied, Some e), inp') \<Rightarrow> ((0, Some e), inp')
      | ((copied, None), inp') \<Rightarrow> ((orBytes byteCount (fill byteCount copied), None), inp'))"

definition stringBytes :: "byte list \<Rightarrow> byte list" where
  "stringBytes str = numberBytes (word_of_nat (length str)) 2 @ str"

definition writeLengthPrefixedString :: "byte list \<Rightarrow> writer \<Rightarrow> (int \<times> error option) \<times> writer" where
  "writeLengthPrefixedString str out =
     ((int (length (stringBytes str)), None), out @ stringBytes str)"

definition readLengthPrefixedString ::
  "reader \<Rightarrow> (byte list \<times> int \<times> error option) \<times> reader" where
  "readLengthPrefixedString inp =
     (case readNumber 2 inp of
        ((len, Some e), inp1) \<Rightarrow> (([], 0, Some e), inp1)
      | ((len, None), inp1) \<Rightarrow>
          (case io_Read (unat len) inp1 of
             ((copied, Some e), inp2) \<Rightarrow> (([], 0, Some e), inp2)
           | ((copied, None), inp2) \<Rightarrow>
               ((fill (unat len) copied, 2 + int (unat len), None), inp2)))"

subsection \<open>The gzip library\<close>

text \<open>
  \<^verbatim>\<open>compress/gzip\<close> is not part of the package, so it is a parameter
  \<open>G\<close> of the model. \<open>gzWriteAll G payload\<close> is every byte that a
  \<^verbatim>\<open>gzip.Writer\<close> writes to its destination from
  \<^verbatim>\<open>NewWriter\<close> to \<^verbatim>\<open>Close\<close> when \<open>payload\<close> is
  written to it. \<open>gzNewReader G raw\<close> is \<^verbatim>\<open>gzip.NewReader\<close>
  on a source with the unread bytes \<open>raw\<close>: an error, or the state of the new
  reader and what it left unread in the source. \<open>gzRead G len z raw\<close> is one
  \<^verbatim>\<open>Read\<close> into a buffer of \<open>len\<close> bytes: the bytes
  delivered, the error, the next state and what is left unread in the source.
\<close>

record 'z gzip =
  gzWriteAll :: "byte list \<Rightarrow> byte list"
  gzNewReader :: "byte list \<Rightarrow> error + 'z \<times> byte list"
  gzRead :: "nat \<Rightarrow> 'z \<Rightarrow> byte list \<Rightarrow> (byte list \<times> error option) \<times> 'z \<times> byte list"
  gzClose :: "'z \<Rightarrow> error option"

subsection \<open>The header and the writer\<close>

record FileHeader =
  UploadDate :: Time
  ApiKeyID :: byte
  MimeType :: "byte list"
  OriginalName :: "byte list"

text \<open>\<^verbatim>\<open>FileHeader{}\<close>: the zero time is 1 January of year 1.\<close>

definition zeroHeader :: FileHeader where
  "zeroHeader =
     \<lparr>UploadDate = \<lparr>unixSec = - 62135596800, nsec = 0\<rparr>, ApiKeyID = 0,
      MimeType = [], OriginalName = []\<rparr>"

text \<open>
  \<^verbatim>\<open>WriteFile\<close> returns \<^verbatim>\<open>(nWritten, err)\<close>; the model
  returns with them the destination and the source as the call leaves them.
  \<^verbatim>\<open>io.Copy\<close> drains the source and returns the number of bytes it
  copied into the gzip writer; the deferred \<^verbatim>\<open>Flush\<close> and
  \<^verbatim>\<open>Close\<close> run before the function returns.
\<close>

definition WriteFile ::
  "'z gzip \<Rightarrow> writer option \<Rightarrow> FileHeader \<Rightarrow> reader option \<Rightarrow>
     (int \<times> error option) \<times> writer option \<times> reader option" where
  "WriteFile G dst info src =
     (case dst of
        None \<Rightarrow> ((0, Some ErrNilDstSrc), dst, src)
      | Some d \<Rightarrow>
     (case src of
        None \<Rightarrow> ((0, Some ErrNilDstSrc), dst, src)
      | Some s \<Rightarrow>
     (let d1 = d @ [0xFA, 0xFA]; nWritten = 2 in
     (case writeNumber (word_of_int (sint (UnixNano (UploadDate info)) sdiv 1000000000)) 5 [] of
        ((n, Some e), hb1) \<Rightarrow> ((nWritten, Some e), Some d1, src)
      | ((n, None), hb1) \<Rightarrow>
     (let hb2 = hb1 @ [ApiKeyID info] in
     (case writeLengthPrefixedString (MimeType info) hb2 of
        ((n, Some e), hb3) \<Rightarrow> ((nWritten, Some e), Some d1, src)
      | ((n, None), hb3) \<Rightarrow>
     (case writeLengthPrefixedString (OriginalName info) hb3 of
        ((n, Some e), hb4) \<Rightarrow> ((nWritten, Some e), Some d1, src)
      | ((n, None), hb4) \<Rightarrow>
     (let headLength = length hb4 in
     (case writeNumber (word_of_nat headLength) 2 d1 of
        ((n64, Some e), d2) \<Rightarrow> ((nWritten, Some e), Some d2, src)
      | ((n64, None), d2) \<Rightarrow>
     (let nWritten = nWritten + n64;
          d3 = d2 @ hb4;
          nWritten = nWritten + int (length hb4);
          d4 = d3 @ gzWriteAll G (unread s);
          n64 = int (length (unread s))
      in ((nWritten + n64, None), Some d4, Some (s\<lparr>unread := []\<rparr>))))))))))))"

subsection \<open>The header reader\<close>

text \<open>
  \<open>decodeHeader\<close> is the second half of \<^verbatim>\<open>ReadFileHeader\<close>, from
  \<^verbatim>\<open>bytes.NewBuffer(headerBytes)\<close> on: the header as far as it was
  filled in, and the error.
\<close>

definition decodeHeader :: "reader \<Rightarrow> FileHeader \<times> error option" where
  "decodeHeader headerBuf =
     (case readNumber 5 headerBuf of
        ((secondsTime, Some e), hb1) \<Rightarrow> (zeroHeader, Some e)
      | ((secondsTime, None), hb1) \<Rightarrow>
     (let header = zeroHeader\<lparr>UploadDate := time_Unix (sint secondsTime) 0\<rparr> in
     (case ReadByte hb1 of
        ((b, Some e), hb2) \<Rightarrow> (header\<lparr>ApiKeyID := b\<rparr>, Some e)
      | ((b, None), hb2) \<Rightarrow>
     (case readLengthPrefixedString hb2 of
        ((str, n, Some e), hb3) \<Rightarrow> (header\<lparr>ApiKeyID := b, MimeType := str\<rparr>, Some e)
      | ((str, n, None), hb3) \<Rightarrow>
     (case readLengthPrefixedString hb3 of
        ((str', n', err), hb4) \<Rightarrow>
          (header\<lparr>ApiKeyID := b, MimeType := str, OriginalName := str'\<rparr>, err))))))"

definition ReadFileHeader :: "reader \<Rightarrow> (FileHeader \<times> int \<times> error option) \<times> reader" where
  "ReadFileHeader src =
     (case io_Read 2 src of
        ((copied, Some e), src1) \<Rightarrow> ((zeroHeader, 0, Some e), src1)
      | ((copied, None), src1) \<Rightarrow>
     (let twoBytes = fill 2 copied; nRead = int (length copied) in
      if twoBytes ! 0 \<noteq> twoBytes ! 1 \<and> twoBytes ! 0 \<noteq> 0xFA
      then ((zeroHeader, nRead, Some ErrNoFAFA), src1)
      else
     (case readNumber 2 src1 of
        ((headerLength, Some e), src2) \<Rightarrow> ((zeroHeader, nRead, Some e), src2)
      | ((headerLength, None), src2) \<Rightarrow>
     (case io_Read (unat headerLength) src2 of
        ((hcopied, Some e), src3) \<Rightarrow> ((zeroHeader, nRead, Some e), src3)
      | ((hcopied, None), src3) \<Rightarrow>
     (case decodeHeader (bytes_NewBuffer (fill (unat headerLength) hcopied)) of
        (header, err) \<Rightarrow> ((header, nRead, err), src3))))))"

subsection \<open>The handle\<close>

text \<open>
  \<open>currentSource\<close> is an interface value that is nil or holds the same object as
  \<open>rawSource\<close> or as \<open>decompressSource\<close>; the model keeps which one. The
  gzip reader reads from the object in \<open>rawSource\<close>, so a read through it also
  moves \<open>unread (rawSource handle)\<close>. Calling \<^verbatim>\<open>Close\<close> on a nil
  \<^verbatim>\<open>*gzip.Reader\<close> and \<^verbatim>\<open>Read\<close> on a nil interface
  dereference nil, which panics.
\<close>

datatype current = NoSource | RawSource | DecompressSource

record 'z FileHandle =
  Header :: FileHeader
  decompressSource :: "'z option"
  rawSource :: reader
  currentSource :: current

type_synonym ReadMode = "8 word"

definition DecompressReadMode :: ReadMode where
  "DecompressReadMode = 0"

definition RawReadMode :: ReadMode where
  "RawReadMode = 1"

definition SetReadMode :: "'z gzip \<Rightarrow> ReadMode \<Rightarrow> 'z FileHandle \<Rightarrow> 'z FileHandle outcome" where
  "SetReadMode G mode handle =
     (if mode = DecompressReadMode then
        (case decompressSource handle of
           None \<Rightarrow>
             (case gzNewReader G (unread (rawSource handle)) of
                Inl err \<Rightarrow> Panic (PanicError err)
              | Inr (decompress, rest) \<Rightarrow>
                  Return (handle\<lparr>decompressSource := Some decompress,
                                  rawSource := (rawSource handle)\<lparr>unread := rest\<rparr>,
                                  currentSource := DecompressSource\<rparr>))
         | Some decompress \<Rightarrow> Return (handle\<lparr>currentSource := DecompressSource\<rparr>))
      else if mode = RawReadMode then Return (handle\<lparr>currentSource := RawSource\<rparr>)
      else Panic PanicBadMode)"

definition Close :: "'z gzip \<Rightarrow> 'z FileHandle \<Rightarrow> (error option \<times> 'z FileHandle) outcome" where
  "Close G handle =
     (case decompressSource handle of
        None \<Rightarrow> Panic PanicNilDereference
      | Some decompress \<Rightarrow>
          (let dropped = gzClose G decompress in
           (case closer (rawSource handle) of
              Some r \<Rightarrow> Return (r, handle)
            | None \<Rightarrow> Return (None, handle\<lparr>currentSource := NoSource\<rparr>))))"

definition Read ::
  "'z gzip \<Rightarrow> nat \<Rightarrow> 'z FileHandle \<Rightarrow> ((byte list \<times> error option) \<times> 'z FileHandle) outcome" where
  "Read G len handle =
     (case currentSource handle of
        NoSource \<Rightarrow> Panic PanicNilDereference
      | RawSource \<Rightarrow>
          (case io_Read len (rawSource handle) of
             (res, raw') \<Rightarrow> Return (res, handle\<lparr>rawSource := raw'\<rparr>))
      | DecompressSource \<Rightarrow>
          (case decompressSource handle of
             None \<Rightarrow> Panic PanicNilDereference
           | Some decompress \<Rightarrow>
               (case gzRead G len decompress (unread (rawSource handle)) of
                  (res, decompress', rest) \<Rightarrow>
                    Return (res, handle\<lparr>decompressSource := Some decompress',
                                         rawSource := (rawSource handle)\<lparr>unread := rest\<rparr>\<rparr>))))"

text \<open>
  \<^verbatim>\<open>ReadFile\<close> returns \<^verbatim>\<open>(handle, err)\<close>; the handle is
  nil (\<open>None\<close>) only for a nil source. The handle's \<open>rawSource\<close> is the
  source itself, so it has moved past what \<^verbatim>\<open>ReadFileHeader\<close> read.
\<close>

definition ReadFile ::
  "'z gzip \<Rightarrow> reader option \<Rightarrow> ('z FileHandle option \<times> error option) outcome" where
  "ReadFile G src =
     (case src of
        None \<Rightarrow> Return (None, Some ErrNilReader)
      | Some s \<Rightarrow>
          (case ReadFileHeader s of
             ((header, n, err), s') \<Rightarrow>
               (let handle = \<lparr>Header = header, decompressSource = None, rawSource = s',
                               currentSource = NoSource\<rparr>
                in if err \<noteq> None then Return (Some handle, err)
                   else (case SetReadMode G RawReadMode handle of
                           Panic p \<Rightarrow> Panic p
                         | Return handle' \<Rightarrow> Return (Some handle', None)))))"

subsection \<open>Reading to the end\<close>

text \<open>
  \<^verbatim>\<open>ioutil.ReadAll\<close>, which the tests run on a handle, calls
  \<^verbatim>\<open>Read\<close> with a buffer of \<open>c\<close> free bytes until it returns an
  error, and returns what it collected, with a nil error when that error was
  \<^verbatim>\<open>io.EOF\<close>. The loop need not end, so it runs on fuel: \<open>None\<close> is
  a loop that has not returned within \<open>fuel\<close> reads. \<open>gzReadAll\<close> is the
  same loop on a gzip reader alone.
\<close>

fun ReadAll ::
  "nat \<Rightarrow> 'z gzip \<Rightarrow> nat \<Rightarrow> 'z FileHandle \<Rightarrow> byte list \<Rightarrow>
     ((byte list \<times> error option) \<times> 'z FileHandle) outcome option" where
  "ReadAll 0 G c handle acc = None"
| "ReadAll (Suc fuel) G c handle acc =
     (case Read G c handle of
        Panic p \<Rightarrow> Some (Panic p)
      | Return ((bs, None), handle') \<Rightarrow> ReadAll fuel G c handle' (acc @ bs)
      | Return ((bs, Some e), handle') \<Rightarrow>
          Some (Return ((acc @ bs, if e = EOF then None else Some e), handle')))"

fun gzReadAll ::
  "nat \<Rightarrow> 'z gzip \<Rightarrow> nat \<Rightarrow> 'z \<Rightarrow> byte list \<Rightarrow> byte list \<Rightarrow>
     ((byte list \<times> error option) \<times> 'z \<times> byte list) option" where
  "gzReadAll 0 G c z raw acc = None"
| "gzReadAll (Suc fuel) G c z raw acc =
     (case gzRead G c z raw of
        ((bs, None), z', raw') \<Rightarrow> gzReadAll fuel G c z' raw' (acc @ bs)
      | ((bs, Some e), z', raw') \<Rightarrow>
          Some ((acc @ bs, if e = EOF then None else Some e), z', raw'))"

subsection \<open>An instance of the gzip interface\<close>

text \<open>
  \<open>plain_gzip\<close> is a small instance of the interface, for running the model on
  concrete streams: its writer emits the two magic bytes of a gzip member and then the
  payload as it is, its reader checks the two bytes and delivers what follows.
\<close>

definition plain_gzip :: "unit gzip" where
  "plain_gzip =
     \<lparr>gzWriteAll = (\<lambda>payload. [0x1F, 0x8B] @ payload),
      gzNewReader = (\<lambda>raw.
        if take 2 raw = [0x1F, 0x8B] then Inr ((), drop 2 raw)
        else if raw = [] then Inl EOF
        else if length raw < 2 then Inl ErrUnexpectedEOF
        else Inl ErrGzipHeader),
      gzRead = (\<lambda>len z raw.
        if raw = [] then (([], Some EOF), z, raw)
        else ((take len raw, None), z, drop len raw)),
      gzClose = (\<lambda>z. None)\<rparr>"

subsection \<open>Names for the statements\<close>

text \<open>
  \<open>headerBuffer info\<close> is the content of the local
  \<^verbatim>\<open>headerBuffer\<close> of \<^verbatim>\<open>WriteFile\<close> when the four fields
  have been written to it. \<open>trailingRegion\<close> follows the table of the wire
  format: the bytes of a container from offset \<open>4 + H\<close> on, \<open>H\<close> being the
  big-endian number in its bytes 2 and 3; it is used for containers of four bytes or more.
  \<open>testFileHeader\<close> is the header of the tests.
\<close>

definition headerBuffer :: "FileHeader \<Rightarrow> byte list" where
  "headerBuffer info =
     numberBytes (word_of_int (sint (UnixNano (UploadDate info)) sdiv 1000000000)) 5 @
     [ApiKeyID info] @ stringBytes (MimeType info) @ stringBytes (OriginalName info)"

definition trailingRegion :: "byte list \<Rightarrow> byte list" where
  "trailingRegion container =
     drop (4 + (256 * unat (container ! 2) + unat (container ! 3))) container"

definition testFileHeader :: FileHeader where
  "testFileHeader =
     \<lparr>UploadDate = time_Unix 1481834107 0, ApiKeyID = 1,
      MimeType = map of_char ''image/png'',
      OriginalName = map of_char ''Screenshot at todo''\<rparr>"

subsection \<open>Concrete streams\<close>

text \<open>
  \<open>exampleContainer\<close> is the container that \<^verbatim>\<open>WriteFile\<close> writes
  with \<open>plain_gzip\<close> for the header of the tests and the payload
  \<open>examplePayload\<close>. \<open>epochHeader\<close> is a header of zero bytes on the wire,
  and \<open>longHeader\<close> one whose MIME type has 65526 bytes, so that its encoding has
  65536. \<open>rawHandle raw\<close> is a handle in raw mode over the
  unread bytes \<open>raw\<close> that has no gzip reader, as \<^verbatim>\<open>ReadFile\<close>
  returns it; \<open>gzHandle raw\<close> is a handle in decompress mode whose gzip reader has
  left \<open>raw\<close> unread in the source.
\<close>

definition examplePayload :: "byte list" where
  "examplePayload = [1, 2, 3]"

definition exampleContainer :: "byte list" where
  "exampleContainer =
     [0xFA, 0xFA, 0, 37, 0, 88, 82, 254, 123, 1, 0, 9, 105, 109, 97, 103, 101, 47, 112, 110,
      103, 0, 18, 83, 99, 114, 101, 101, 110, 115, 104, 111, 116, 32, 97, 116, 32, 116, 111,
      100, 111, 0x1F, 0x8B, 1, 2, 3]"

definition epochHeader :: FileHeader where
  "epochHeader =
     \<lparr>UploadDate = time_Unix 0 0, ApiKeyID = 0, MimeType = [], OriginalName = []\<rparr>"

definition longHeader :: FileHeader where
  "longHeader = epochHeader\<lparr>MimeType := replicate 65526 0\<rparr>"

definition rawHandle :: "byte list \<Rightarrow> unit FileHandle" where
  "rawHandle raw =
     \<lparr>Header = testFileHeader, decompressSource = None, rawSource = bytes_NewReader raw,
      currentSource = RawSource\<rparr>"

definition gzHandle :: "byte list \<Rightarrow> unit FileHandle" where
  "gzHandle raw =
     \<lparr>Header = testFileHeader, decompressSource = Some (), rawSource = bytes_NewReader raw,
      currentSource = DecompressSource\<rparr>"

subsection \<open>Sequences of calls on a handle\<close>

text \<open>
  A caller's sequence of \<^verbatim>\<open>SetReadMode\<close> and \<^verbatim>\<open>Read\<close>
  calls on one handle: \<open>run\<close> makes the calls in order and returns what the reads
  returned and the handle at the end, or the first panic.
\<close>

datatype op = OpSetReadMode ReadMode | OpRead nat

fun run ::
  "'z gzip \<Rightarrow> op list \<Rightarrow> 'z FileHandle \<Rightarrow>
     ((byte list \<times> error option) list \<times> 'z FileHandle) outcome" where
  "run G [] handle = Return ([], handle)"
| "run G (OpSetReadMode mode # ops) handle =
     (case SetReadMode G mode handle of
        Panic p \<Rightarrow> Panic p
      | Return handle' \<Rightarrow> run G ops handle')"
| "run G (OpRead len # ops) handle =
     (case Read G len handle of
        Panic p \<Rightarrow> Panic p
      | Return (res, handle') \<Rightarrow>
          (case run G ops handle' of
             Panic p \<Rightarrow> Panic p
           | Return (ress, handle'') \<Rightarrow> Return (res # ress, handle'')))"

section \<open>Numbers on the wire\<close>

lemma upt2: "[0..<2] = [0, Suc 0]"
  by (simp add: upt_rec)

lemma upt5: "[0..<5] = [0, 1, 2, 3, 4]"
  by (simp add: upt_rec)

lemma length_numberBytes: "length (numberBytes w n) = n"
  by (simp add: numberBytes_def)

lemma numberBytes_nonempty: "0 < n \<Longrightarrow> numberBytes w n \<noteq> []"
  using length_numberBytes [of w n] by auto

lemma orBytes_numberBytes_2: "orBytes 2 (numberBytes w 2) = take_bit 16 w"
proof (rule bit_word_eqI)
  fix n :: nat
  assume "n < LENGTH(64)"
  consider "n < 8" | "8 \<le> n" "n < 16" | "16 \<le> n"
    by linarith
  then show "bit (orBytes 2 (numberBytes w 2)) n = bit (take_bit 16 w) n"
    by cases (auto simp add: orBytes_def numberBytes_def upt2 bit_simps)
qed

lemma orBytes_numberBytes_5: "orBytes 5 (numberBytes w 5) = take_bit 40 w"
proof (rule bit_word_eqI)
  fix n :: nat
  assume "n < LENGTH(64)"
  consider "n < 8" | "8 \<le> n" "n < 16" | "16 \<le> n" "n < 24" | "24 \<le> n" "n < 32"
    | "32 \<le> n" "n < 40" | "40 \<le> n"
    by linarith
  then show "bit (orBytes 5 (numberBytes w 5)) n = bit (take_bit 40 w) n"
    by cases (auto simp add: orBytes_def numberBytes_def upt5 bit_simps)
qed

lemma unat_be16:
  fixes a b :: byte
  shows "unat (push_bit 8 (ucast a) OR ucast b :: 64 word) = 256 * unat a + unat b"
proof -
  have "unat a < 2 ^ LENGTH(8)" "unat b < 2 ^ LENGTH(8)"
    by (rule unsigned_less)+
  then have small: "unat a < 256" "unat b < 256" by simp_all
  have ua: "unat (ucast a :: 64 word) = unat a" and ub: "unat (ucast b :: 64 word) = unat b"
    using small by (simp_all add: unsigned_ucast_eq take_bit_nat_eq_self)
  have pa: "unat (push_bit 8 (ucast a) :: 64 word) = 256 * unat a"
    using small by (simp add: push_bit_eq_mult unat_word_ariths ua)
  have disj: "(push_bit 8 (ucast a) :: 64 word) AND ucast b = 0"
    by (rule bit_word_eqI) (auto simp add: bit_simps dest: bit_imp_le_length)
  have "push_bit 8 (ucast a) OR ucast b = (push_bit 8 (ucast a) + ucast b :: 64 word)"
    using disjunctive_add_eq_or [OF disj] by simp
  moreover have "unat (push_bit 8 (ucast a) + ucast b :: 64 word) = 256 * unat a + unat b"
    using small by (simp add: unat_word_ariths pa ub)
  ultimately show ?thesis by simp
qed

lemma unat_orBytes_2: "unat (orBytes 2 [a, b]) = 256 * unat a + unat b"
  using unat_be16 [of a b] by (simp add: orBytes_def upt2)

lemma unat_take_bit_16_of_nat:
  assumes "n < 65536"
  shows "unat (take_bit 16 (word_of_nat n :: 64 word)) = n"
  using assms by (simp add: unsigned_take_bit_eq unat_of_nat take_bit_nat_eq_self)

section \<open>The timestamp\<close>

lemma sdiv_nonneg:
  fixes y :: int
  assumes "0 \<le> y"
  shows "y sdiv 1000000000 = y div 1000000000"
  using assms by (cases "y = 0") (simp_all add: signed_divide_int_def sgn_if)

lemma seconds_word:
  assumes "0 \<le> unixSec t" "0 \<le> nsec t" "nsec t < 1000000000"
    "unixSec t * 1000000000 + nsec t < 2 ^ 63"
  shows "(word_of_int (sint (UnixNano t) sdiv 1000000000) :: 64 word) = word_of_int (unixSec t)"
proof -
  let ?x = "unixSec t * 1000000000 + nsec t"
  have x0: "0 \<le> ?x" using assms by simp
  have a: "sint (word_of_int ?x :: 64 word) = signed_take_bit (LENGTH(64) - 1) ?x"
    by (rule sint_sbintrunc')
  have b: "signed_take_bit (LENGTH(64) - 1) ?x = ?x"
    using x0 assms(4) by (simp add: signed_take_bit_int_eq_self)
  have "sint (UnixNano t) = ?x"
    unfolding UnixNano_def using a b by (simp only:)
  moreover have "?x sdiv 1000000000 = ?x div 1000000000"
    using x0 by (rule sdiv_nonneg)
  moreover have "?x div 1000000000 = unixSec t"
    using assms by simp
  ultimately show ?thesis by simp
qed

lemma seconds_below_2_40:
  assumes "0 \<le> unixSec t" "0 \<le> nsec t" "unixSec t * 1000000000 + nsec t < 2 ^ 63"
  shows "unixSec t < 2 ^ 40"
  using assms by simp

lemma take_bit_40_seconds:
  assumes "0 \<le> s" "s < 2 ^ 40"
  shows "take_bit 40 (word_of_int s :: 64 word) = word_of_int s"
  using assms by transfer (simp add: take_bit_int_eq_self min_def)

lemma sint_seconds:
  assumes "0 \<le> s" "s < 2 ^ 40"
  shows "sint (word_of_int s :: 64 word) = s"
  using assms by (simp add: sint_sbintrunc' signed_take_bit_int_eq_self)

section \<open>Reading what was written\<close>

lemma readCount_full: "perRead r = None \<Longrightarrow> readCount len r = len"
  by (simp add: readCount_def)

lemma io_Read_full:
  "perRead r = None \<Longrightarrow>
     io_Read len r =
       (if unread r = [] then
          (if kind r = BytesBuffer \<and> len = 0 then (([], None), r) else (([], Some EOF), r))
        else ((take len (unread r), None), r\<lparr>unread := drop len (unread r)\<rparr>))"
  by (simp add: io_Read_def readCount_full)

lemma io_Read_prefix:
  "perRead r = None \<Longrightarrow> unread r = xs @ ys \<Longrightarrow> xs \<noteq> [] \<Longrightarrow>
     io_Read (length xs) r = ((xs, None), r\<lparr>unread := ys\<rparr>)"
  by (simp add: io_Read_full)

lemma io_Read_zero_buffer:
  "kind r = BytesBuffer \<Longrightarrow> io_Read 0 r = (([], None), r)"
  by (simp add: io_Read_def readCount_def split: option.split)

lemma fill_full: "fill (length xs) xs = xs"
  by (simp add: fill_def)

lemma readNumber_2_prefix:
  assumes "perRead r = None" and "unread r = numberBytes w 2 @ ys"
  shows "readNumber 2 r = ((take_bit 16 w, None), r\<lparr>unread := ys\<rparr>)"
proof -
  have "io_Read (length (numberBytes w 2)) r = ((numberBytes w 2, None), r\<lparr>unread := ys\<rparr>)"
    using assms by (intro io_Read_prefix numberBytes_nonempty) simp_all
  then have "io_Read 2 r = ((numberBytes w 2, None), r\<lparr>unread := ys\<rparr>)"
    by (simp add: length_numberBytes)
  moreover have "fill 2 (numberBytes w 2) = numberBytes w 2"
    using fill_full [of "numberBytes w 2"] by (simp add: length_numberBytes)
  ultimately show ?thesis
    by (simp add: readNumber_def orBytes_numberBytes_2)
qed

lemma readNumber_5_prefix:
  assumes "perRead r = None" and "unread r = numberBytes w 5 @ ys"
  shows "readNumber 5 r = ((take_bit 40 w, None), r\<lparr>unread := ys\<rparr>)"
proof -
  have "io_Read (length (numberBytes w 5)) r = ((numberBytes w 5, None), r\<lparr>unread := ys\<rparr>)"
    using assms by (intro io_Read_prefix numberBytes_nonempty) simp_all
  then have "io_Read 5 r = ((numberBytes w 5, None), r\<lparr>unread := ys\<rparr>)"
    by (simp add: length_numberBytes)
  moreover have "fill 5 (numberBytes w 5) = numberBytes w 5"
    using fill_full [of "numberBytes w 5"] by (simp add: length_numberBytes)
  ultimately show ?thesis
    by (simp add: readNumber_def orBytes_numberBytes_5)
qed

lemma readLengthPrefixedString_prefix:
  assumes f: "perRead r = None"
    and u: "unread r = stringBytes str @ ys"
    and k: "kind r = BytesBuffer"
    and len: "length str < 65536"
  shows "readLengthPrefixedString r =
           ((str, 2 + int (length str), None), r\<lparr>unread := ys\<rparr>)"
proof -
  let ?r1 = "r\<lparr>unread := str @ ys\<rparr>"
  have n: "readNumber 2 r = ((take_bit 16 (word_of_nat (length str)), None), ?r1)"
    using f u by (intro readNumber_2_prefix) (simp_all add: stringBytes_def)
  have l: "unat (take_bit 16 (word_of_nat (length str) :: 64 word)) = length str"
    using len by (rule unat_take_bit_16_of_nat)
  have rd: "io_Read (length str) ?r1 = ((str, None), r\<lparr>unread := ys\<rparr>)"
  proof (cases "str = []")
    case True
    then show ?thesis
      using k f by (simp add: io_Read_full)
  next
    case False
    then show ?thesis
      using io_Read_prefix [of ?r1 str ys] f by simp
  qed
  have l': "uint (take_bit 16 (word_of_nat (length str) :: 64 word)) = int (length str)"
    by (simp only: uint_nat l)
  show ?thesis
    by (simp add: readLengthPrefixedString_def n l l' rd fill_full)
qed

section \<open>The writer\<close>

lemma WriteFile_Some:
  "WriteFile G (Some d) info (Some s) =
     ((4 + int (length (headerBuffer info)) + int (length (unread s)), None),
      Some (d @ [0xFA, 0xFA] @ numberBytes (word_of_nat (length (headerBuffer info))) 2 @
            headerBuffer info @ gzWriteAll G (unread s)),
      Some (s\<lparr>unread := []\<rparr>))"
  by (simp add: WriteFile_def writeNumber_def writeLengthPrefixedString_def headerBuffer_def
      length_numberBytes Let_def add.assoc)

text \<open>
  Claim C3 says that a successful \<^verbatim>\<open>WriteFile\<close> returns the number of
  bytes written to the destination, counting the compressed payload as emitted. The code
  adds to the count what \<^verbatim>\<open>io.Copy\<close> returns, which is the number of
  payload bytes before compression: the count is 4 plus the header bytes plus the length of
  the payload, while the bytes appended to the destination are 4 plus the header bytes plus
  the length of the gzip stream.
\<close>

theorem WriteFile_counts_payload_before_compression:
  "fst (WriteFile G (Some d) info (Some s)) =
     (4 + int (length (headerBuffer info)) + int (length (unread s)), None) \<and>
   (\<exists>written.
      fst (snd (WriteFile G (Some d) info (Some s))) = Some (d @ written) \<and>
      int (length written) =
        4 + int (length (headerBuffer info)) + int (length (gzWriteAll G (unread s))))"
  by (simp add: WriteFile_Some length_numberBytes)

section \<open>The nil checks\<close>

text \<open>
  Claim C9: \<^verbatim>\<open>WriteFile\<close> with a nil destination or a nil source, and
  \<^verbatim>\<open>ReadFile\<close> with a nil source, return an error at once; the count is
  0, no handle is made, and the streams that were given are returned as they were: nothing
  was written to the destination or read from the source.
\<close>

theorem nil_arguments_rejected:
  "WriteFile G None info src = ((0, Some ErrNilDstSrc), None, src) \<and>
   WriteFile G dst info None = ((0, Some ErrNilDstSrc), dst, None) \<and>
   ReadFile G None = Return (None, Some ErrNilReader)"
  by (simp add: WriteFile_def ReadFile_def split: option.split)

section \<open>The magic bytes\<close>

lemma ReadFileHeader_zero_magic:
  "ReadFileHeader (bytes_NewReader [0, 0, 0, 10, 0, 0, 0, 0, 1, 7, 0, 0, 0, 0]) =
     ((\<lparr>UploadDate = time_Unix 1 0, ApiKeyID = 7, MimeType = [], OriginalName = []\<rparr>,
       2, None), bytes_NewReader [])"
  by code_simp

lemma ReadFileHeader_half_magic:
  "ReadFileHeader (bytes_NewReader [0xFA, 0, 0, 10, 0, 0, 0, 0, 1, 7, 0, 0, 0, 0]) =
     ((\<lparr>UploadDate = time_Unix 1 0, ApiKeyID = 7, MimeType = [], OriginalName = []\<rparr>,
       2, None), bytes_NewReader [])"
  by code_simp

text \<open>
  Claim C2 says that a stream whose first two bytes are not both \<open>0xFA\<close> is refused.
  The test in \<^verbatim>\<open>ReadFileHeader\<close> refuses it only when the two bytes
  differ and the first is not \<open>0xFA\<close>: a stream that starts with two zero bytes, or
  with \<open>0xFA\<close> and a zero byte, is read without error into a handle with a decoded
  header.
\<close>

theorem ReadFile_accepts_other_magic:
  "ReadFile G (Some (bytes_NewReader [0, 0, 0, 10, 0, 0, 0, 0, 1, 7, 0, 0, 0, 0])) =
     Return (Some \<lparr>Header = \<lparr>UploadDate = time_Unix 1 0, ApiKeyID = 7, MimeType = [],
                               OriginalName = []\<rparr>,
                    decompressSource = None, rawSource = bytes_NewReader [],
                    currentSource = RawSource\<rparr>, None) \<and>
   ReadFile G (Some (bytes_NewReader [0xFA, 0, 0, 10, 0, 0, 0, 0, 1, 7, 0, 0, 0, 0])) =
     Return (Some \<lparr>Header = \<lparr>UploadDate = time_Unix 1 0, ApiKeyID = 7, MimeType = [],
                               OriginalName = []\<rparr>,
                    decompressSource = None, rawSource = bytes_NewReader [],
                    currentSource = RawSource\<rparr>, None)"
  by (simp add: ReadFile_def ReadFileHeader_zero_magic ReadFileHeader_half_magic
      SetReadMode_def RawReadMode_def DecompressReadMode_def)

section \<open>Closing a handle\<close>

lemma ReadFileHeader_small_container:
  "ReadFileHeader
     (bytes_NewReader [0xFA, 0xFA, 0, 10, 0, 0, 0, 0, 1, 7, 0, 0, 0, 0, 0x1F, 0x8B, 9]) =
     ((\<lparr>UploadDate = time_Unix 1 0, ApiKeyID = 7, MimeType = [], OriginalName = []\<rparr>,
       2, None), bytes_NewReader [0x1F, 0x8B, 9])"
  by code_simp

text \<open>
  Claim C5 says that closing a handle that never left raw mode is safe, and that the first
  error of the two closes is reported. \<^verbatim>\<open>Close\<close> calls
  \<^verbatim>\<open>handle.decompressSource.Close()\<close> without a nil check: on the handle
  that \<^verbatim>\<open>ReadFile\<close> returns for a container it panics. And it drops the
  result of the gzip reader's \<^verbatim>\<open>Close\<close>: when that fails and the raw
  source closes without error, \<^verbatim>\<open>Close\<close> returns nil.
\<close>

theorem Close_in_raw_mode_panics:
  "ReadFile G
     (Some (bytes_NewReader [0xFA, 0xFA, 0, 10, 0, 0, 0, 0, 1, 7, 0, 0, 0, 0, 0x1F, 0x8B, 9])) =
     Return (Some \<lparr>Header = \<lparr>UploadDate = time_Unix 1 0, ApiKeyID = 7, MimeType = [],
                               OriginalName = []\<rparr>,
                    decompressSource = None, rawSource = bytes_NewReader [0x1F, 0x8B, 9],
                    currentSource = RawSource\<rparr>, None) \<and>
   Close G \<lparr>Header = \<lparr>UploadDate = time_Unix 1 0, ApiKeyID = 7, MimeType = [],
                         OriginalName = []\<rparr>,
              decompressSource = None, rawSource = bytes_NewReader [0x1F, 0x8B, 9],
              currentSource = RawSource\<rparr> = Panic PanicNilDereference \<and>
   Close (G\<lparr>gzClose := \<lambda>z. Some ErrGzipChecksum\<rparr>)
     \<lparr>Header = H, decompressSource = Some z, rawSource = r\<lparr>closer := Some None\<rparr>,
      currentSource = DecompressSource\<rparr> =
     Return (None, \<lparr>Header = H, decompressSource = Some z,
                     rawSource = r\<lparr>closer := Some None\<rparr>,
                     currentSource = DecompressSource\<rparr>)"
  by (simp add: ReadFile_def ReadFileHeader_small_container SetReadMode_def RawReadMode_def
      DecompressReadMode_def Close_def)

section \<open>Short reads\<close>

lemma readNumber_short:
  "readNumber 5 (bytes_NewBuffer [1, 2, 3]) = ((0x0102030000, None), bytes_NewBuffer [])"
  by code_simp

lemma readLengthPrefixedString_short:
  "readLengthPrefixedString (bytes_NewBuffer [0, 5, 0x61, 0x62]) =
     (([0x61, 0x62, 0, 0, 0], 7, None), bytes_NewBuffer [])"
  by code_simp

lemma ReadFileHeader_short:
  "ReadFileHeader (bytes_NewReader [0xFA, 0xFA, 0, 10, 0, 0, 0, 0, 1]) =
     ((\<lparr>UploadDate = time_Unix 1 0, ApiKeyID = 0, MimeType = [], OriginalName = []\<rparr>,
       2, None), bytes_NewReader [])"
  by code_simp

text \<open>
  Claim C6 says that decoding fails when a declared length exceeds the bytes available.
  \<^verbatim>\<open>readNumber\<close>, \<^verbatim>\<open>readLengthPrefixedString\<close> and
  \<^verbatim>\<open>ReadFileHeader\<close> drop the count that \<^verbatim>\<open>Read\<close>
  returns, and \<^verbatim>\<open>Read\<close> returns no error while at least one byte is
  left: a 5-byte number is built from 3 bytes, a string of declared length 5 from 2 bytes,
  and a header of declared length 10 from 5 bytes, the missing bytes taken as zero.
\<close>

theorem short_reads_are_not_errors:
  "readNumber 5 (bytes_NewBuffer [1, 2, 3]) = ((0x0102030000, None), bytes_NewBuffer []) \<and>
   readLengthPrefixedString (bytes_NewBuffer [0, 5, 0x61, 0x62]) =
     (([0x61, 0x62, 0, 0, 0], 7, None), bytes_NewBuffer []) \<and>
   ReadFileHeader (bytes_NewReader [0xFA, 0xFA, 0, 10, 0, 0, 0, 0, 1]) =
     ((\<lparr>UploadDate = time_Unix 1 0, ApiKeyID = 0, MimeType = [], OriginalName = []\<rparr>,
       2, None), bytes_NewReader [])"
  by (simp only: readNumber_short readLengthPrefixedString_short ReadFileHeader_short simp_thms)

section \<open>The header read back\<close>

lemma decodeHeader_headerBuffer:
  assumes t: "0 \<le> unixSec (UploadDate H)" "0 \<le> nsec (UploadDate H)"
      "nsec (UploadDate H) < 1000000000"
      "unixSec (UploadDate H) * 1000000000 + nsec (UploadDate H) < 2 ^ 63"
    and m: "length (MimeType H) < 65536"
    and o: "length (OriginalName H) < 65536"
  shows "decodeHeader (bytes_NewBuffer (headerBuffer H)) =
           (H\<lparr>UploadDate := time_Unix (unixSec (UploadDate H)) 0\<rparr>, None)"
proof -
  let ?s = "unixSec (UploadDate H)"
  let ?w = "word_of_int ?s :: 64 word"
  let ?r0 = "bytes_NewBuffer (headerBuffer H)"
  let ?r1 = "?r0\<lparr>unread := ApiKeyID H # stringBytes (MimeType H) @ stringBytes (OriginalName H)\<rparr>"
  let ?r2 = "?r0\<lparr>unread := stringBytes (MimeType H) @ stringBytes (OriginalName H)\<rparr>"
  let ?r3 = "?r0\<lparr>unread := stringBytes (OriginalName H)\<rparr>"
  let ?r4 = "?r0\<lparr>unread := []\<rparr>"
  have s40: "?s < 2 ^ 40"
    using t(1,2,4) by (rule seconds_below_2_40)
  have hb: "headerBuffer H = numberBytes ?w 5 @ ApiKeyID H # stringBytes (MimeType H) @
      stringBytes (OriginalName H)"
    by (simp add: headerBuffer_def seconds_word [OF t])
  have "readNumber 5 ?r0 = ((take_bit 40 ?w, None), ?r1)"
    by (rule readNumber_5_prefix) (simp_all add: bytes_NewBuffer_def hb)
  then have n: "readNumber 5 ?r0 = ((?w, None), ?r1)"
    by (simp only: take_bit_40_seconds [OF t(1) s40])
  have b: "ReadByte ?r1 = ((ApiKeyID H, None), ?r2)"
    by (simp add: ReadByte_def)
  have s1: "readLengthPrefixedString ?r2 =
      ((MimeType H, 2 + int (length (MimeType H)), None), ?r3)"
    using readLengthPrefixedString_prefix [of ?r2 "MimeType H" "stringBytes (OriginalName H)"] m
    by (simp add: bytes_NewBuffer_def)
  have s2: "readLengthPrefixedString ?r3 =
      ((OriginalName H, 2 + int (length (OriginalName H)), None), ?r4)"
    using readLengthPrefixedString_prefix [of ?r3 "OriginalName H" "[]"] o
    by (simp add: bytes_NewBuffer_def)
  show ?thesis
    by (simp add: decodeHeader_def n b s1 s2 sint_seconds [OF t(1) s40] zeroHeader_def)
qed


lemma ReadFileHeader_container:
  assumes full: "perRead src = None"
    and u: "unread src = [0xFA, 0xFA] @ numberBytes (word_of_nat (length hb)) 2 @ hb @ rest"
    and ne: "hb \<noteq> []"
    and len: "length hb < 65536"
  shows "ReadFileHeader src =
           ((fst (decodeHeader (bytes_NewBuffer hb)), 2, snd (decodeHeader (bytes_NewBuffer hb))),
            src\<lparr>unread := rest\<rparr>)"
proof -
  let ?nb = "numberBytes (word_of_nat (length hb)) 2 :: byte list"
  let ?src1 = "src\<lparr>unread := ?nb @ hb @ rest\<rparr>"
  let ?src2 = "src\<lparr>unread := hb @ rest\<rparr>"
  have r1: "io_Read 2 src = (([0xFA, 0xFA], None), ?src1)"
    using u full by (simp add: io_Read_full)
  have r2: "readNumber 2 ?src1 = ((take_bit 16 (word_of_nat (length hb)), None), ?src2)"
    using readNumber_2_prefix [of ?src1 "word_of_nat (length hb)" "hb @ rest"] full by simp
  have l: "unat (take_bit 16 (word_of_nat (length hb) :: 64 word)) = length hb"
    using len by (rule unat_take_bit_16_of_nat)
  have r3: "io_Read (length hb) ?src2 = ((hb, None), src\<lparr>unread := rest\<rparr>)"
    using io_Read_prefix [of ?src2 hb rest] ne full by simp
  show ?thesis
    by (simp add: ReadFileHeader_def r1 r2 l r3 fill_def split: prod.split)
qed


section \<open>The timestamp on the wire\<close>

lemma headerBuffer_seconds:
  assumes "0 \<le> unixSec (UploadDate H)" "0 \<le> nsec (UploadDate H)"
    "nsec (UploadDate H) < 1000000000"
    "unixSec (UploadDate H) * 1000000000 + nsec (UploadDate H) < 2 ^ 63"
  shows "headerBuffer H =
           numberBytes (word_of_int (unixSec (UploadDate H))) 5 @
           ApiKeyID H # stringBytes (MimeType H) @ stringBytes (OriginalName H)"
  by (simp add: headerBuffer_def seconds_word [OF assms])

lemma uint_seconds:
  assumes "0 \<le> s" "s < 2 ^ 40"
  shows "uint (word_of_int s :: 64 word) = s"
  using assms by (simp add: uint_word_of_int)

text \<open>
  Claim C10, amended. For a header whose upload time is not before the epoch and whose
  count of nanoseconds since the epoch fits \<^verbatim>\<open>int64\<close> (seconds up to
  9223372036, in the year 2262, which covers every date up to 2106), the first five bytes
  that \<^verbatim>\<open>WriteFile\<close> puts into the header are the whole seconds, most
  significant byte first, with the nanoseconds dropped; they combine to the number of
  seconds, and \<^verbatim>\<open>ReadFileHeader\<close> decodes that second.
\<close>

theorem timestamp_roundtrip:
  assumes "0 \<le> unixSec (UploadDate H)" "0 \<le> nsec (UploadDate H)"
    "nsec (UploadDate H) < 1000000000"
    "unixSec (UploadDate H) * 1000000000 + nsec (UploadDate H) < 2 ^ 63"
  shows "take 5 (headerBuffer H) = numberBytes (word_of_int (unixSec (UploadDate H))) 5 \<and>
    uint (orBytes 5 (take 5 (headerBuffer H))) = unixSec (UploadDate H) \<and>
    UploadDate (fst (decodeHeader (bytes_NewBuffer (headerBuffer H)))) =
      time_Unix (unixSec (UploadDate H)) 0"
proof -
  let ?s = "unixSec (UploadDate H)"
  let ?w = "word_of_int ?s :: 64 word"
  let ?r0 = "bytes_NewBuffer (headerBuffer H)"
  let ?r1 = "?r0\<lparr>unread := ApiKeyID H # stringBytes (MimeType H) @ stringBytes (OriginalName H)\<rparr>"
  have s40: "?s < 2 ^ 40"
    using assms(1,2,4) by (rule seconds_below_2_40)
  have hb: "headerBuffer H = numberBytes ?w 5 @
      ApiKeyID H # stringBytes (MimeType H) @ stringBytes (OriginalName H)"
    using assms by (rule headerBuffer_seconds)
  have first: "take 5 (headerBuffer H) = numberBytes ?w 5"
    by (simp add: hb length_numberBytes)
  have "orBytes 5 (numberBytes ?w 5) = ?w"
    by (simp only: orBytes_numberBytes_5 take_bit_40_seconds [OF assms(1) s40])
  then have second: "uint (orBytes 5 (take 5 (headerBuffer H))) = ?s"
    by (simp only: first uint_seconds [OF assms(1) s40])
  have "readNumber 5 ?r0 = ((take_bit 40 ?w, None), ?r1)"
    by (rule readNumber_5_prefix) (simp_all add: bytes_NewBuffer_def hb)
  then have n: "readNumber 5 ?r0 = ((?w, None), ?r1)"
    by (simp only: take_bit_40_seconds [OF assms(1) s40])
  have third: "UploadDate (fst (decodeHeader ?r0)) = time_Unix ?s 0"
    by (simp add: decodeHeader_def n sint_seconds [OF assms(1) s40] zeroHeader_def
        split: prod.split option.split)
  from first second third show ?thesis by simp
qed

text \<open>The header of the tests satisfies the hypotheses; its five bytes are those below.\<close>

theorem timestamp_roundtrip_witness:
  "0 \<le> unixSec (UploadDate testFileHeader) \<and>
   unixSec (UploadDate testFileHeader) * 1000000000 + nsec (UploadDate testFileHeader) < 2 ^ 63 \<and>
   take 5 (headerBuffer testFileHeader) = [0, 88, 82, 254, 123] \<and>
   uint (orBytes 5 (take 5 (headerBuffer testFileHeader))) = 1481834107 \<and>
   UploadDate (fst (decodeHeader (bytes_NewBuffer (headerBuffer testFileHeader)))) =
     time_Unix 1481834107 0"
proof -
  have a: "0 \<le> unixSec (UploadDate testFileHeader)"
    and b: "0 \<le> nsec (UploadDate testFileHeader)"
    and c: "nsec (UploadDate testFileHeader) < 1000000000"
    and d: "unixSec (UploadDate testFileHeader) * 1000000000 + nsec (UploadDate testFileHeader)
        < 2 ^ 63"
    by (simp_all add: testFileHeader_def time_Unix_def)
  have s: "unixSec (UploadDate testFileHeader) = 1481834107"
    by (simp add: testFileHeader_def time_Unix_def)
  have e: "numberBytes (word_of_int 1481834107) 5 = [0, 88, 82, 254, 123]"
    by code_simp
  note r = timestamp_roundtrip [OF a b c d, unfolded s e]
  from a d r show ?thesis
    by blast
qed

text \<open>
  Claim C10 as stated fails. Second 10000000000 (in the year 2286) lies in \<open>[0, 2^40)\<close>,
  but \<^verbatim>\<open>UnixNano\<close> has wrapped around and the header decodes to second
  1091064883703. Half a second before the epoch has the seconds count \<open>-1\<close>, but
  the division by \<^verbatim>\<open>10E8\<close> rounds towards zero and five zero bytes are
  stored, not the five \<open>0xFF\<close> bytes of \<open>-1\<close> modulo \<open>2^40\<close>.
\<close>

theorem timestamp_year_2286_counterexample:
  "(0::int) \<le> 10000000000 \<and> (10000000000::int) < 2 ^ 40 \<and>
   UploadDate (fst (decodeHeader (bytes_NewBuffer
     (headerBuffer (zeroHeader\<lparr>UploadDate := time_Unix 10000000000 0\<rparr>))))) =
     time_Unix 1091064883703 0 \<and>
   time_Unix 1091064883703 0 \<noteq> time_Unix 10000000000 0 \<and>
   take 5 (headerBuffer (zeroHeader\<lparr>UploadDate := time_Unix (- 1) 500000000\<rparr>)) =
     [0, 0, 0, 0, 0] \<and>
   numberBytes (word_of_int (unixSec (time_Unix (- 1) 500000000))) 5 =
     [0xFF, 0xFF, 0xFF, 0xFF, 0xFF]"
  by code_simp

section \<open>Switching the read mode\<close>

text \<open>
  Claim C4, amended. On a handle that has no gzip reader yet and whose raw source
  \<^verbatim>\<open>gzip.NewReader\<close> refuses, \<^verbatim>\<open>SetReadMode\<close> with
  \<^verbatim>\<open>DecompressReadMode\<close> does not wait for the first read: the call itself
  ends, in a panic that carries the error of \<^verbatim>\<open>gzip.NewReader\<close>.
  \<^verbatim>\<open>SetReadMode\<close> has no error result.
\<close>

theorem SetReadMode_panics_with_the_gzip_error:
  assumes "decompressSource handle = None"
    and "gzNewReader G (unread (rawSource handle)) = Inl err"
  shows "SetReadMode G DecompressReadMode handle = Panic (PanicError err)"
  using assms by (simp add: SetReadMode_def)

text \<open>A handle in raw mode over two zero bytes, which are no gzip header.\<close>

theorem SetReadMode_panics_with_the_gzip_error_witness:
  "decompressSource (rawHandle [0, 0]) = None \<and>
   gzNewReader plain_gzip (unread (rawSource (rawHandle [0, 0]))) = Inl ErrGzipHeader \<and>
   SetReadMode plain_gzip DecompressReadMode (rawHandle [0, 0]) =
     Panic (PanicError ErrGzipHeader)"
proof -
  have a: "decompressSource (rawHandle [0, 0]) = None"
    by (simp add: rawHandle_def)
  have b: "gzNewReader plain_gzip (unread (rawSource (rawHandle [0, 0]))) = Inl ErrGzipHeader"
    by (simp add: rawHandle_def plain_gzip_def bytes_NewReader_def)
  from a b SetReadMode_panics_with_the_gzip_error [OF a b] show ?thesis
    by blast
qed

text \<open>
  Claim C4 as stated fails: on that handle the call does not return, with an error or
  without one; it panics.
\<close>

theorem SetReadMode_returns_no_error_counterexample:
  "SetReadMode plain_gzip DecompressReadMode (rawHandle [0, 0]) =
     Panic (PanicError ErrGzipHeader) \<and>
   (\<nexists>handle'. SetReadMode plain_gzip DecompressReadMode (rawHandle [0, 0]) = Return handle')"
  by (simp add: SetReadMode_def rawHandle_def plain_gzip_def bytes_NewReader_def)

section \<open>One gzip reader for each handle\<close>

lemma mode_constants_differ: "RawReadMode \<noteq> DecompressReadMode"
  by (simp add: RawReadMode_def DecompressReadMode_def)

lemma SetReadMode_existing:
  "decompressSource h = Some z \<Longrightarrow>
     SetReadMode G DecompressReadMode h = Return (h\<lparr>currentSource := DecompressSource\<rparr>)"
  by (simp add: SetReadMode_def)

lemma SetReadMode_Raw:
  "SetReadMode G RawReadMode h = Return (h\<lparr>currentSource := RawSource\<rparr>)"
  by (simp add: SetReadMode_def mode_constants_differ)

lemma SetReadMode_Decompress_result:
  assumes "SetReadMode G DecompressReadMode h = Return h1"
  shows "\<exists>z. decompressSource h1 = Some z" and "currentSource h1 = DecompressSource"
  using assms
  by (auto simp add: SetReadMode_def split: option.splits sum.splits prod.splits)

lemma SetReadMode_reuses:
  assumes "SetReadMode G DecompressReadMode h = Return h1" and "decompressSource h = Some z"
  shows "decompressSource h1 = Some z" and "rawSource h1 = rawSource h"
  using assms by (auto simp add: SetReadMode_def)

lemma SetReadMode_keeps_reader:
  assumes "decompressSource h \<noteq> None" and "SetReadMode G mode h = Return h'"
  shows "decompressSource h' \<noteq> None"
proof (cases "mode = DecompressReadMode")
  case True
  with assms show ?thesis
    by (auto simp add: SetReadMode_def)
next
  case False
  with assms show ?thesis
    by (cases "mode = RawReadMode") (auto simp add: SetReadMode_def)
qed

lemma SetReadMode_without_NewReader:
  assumes "decompressSource h \<noteq> None"
  shows "SetReadMode (G\<lparr>gzNewReader := f\<rparr>) mode h = SetReadMode G mode h"
  using assms by (auto simp add: SetReadMode_def)

lemma Read_keeps_reader:
  assumes "decompressSource h \<noteq> None" and "Read G len h = Return (res, h')"
  shows "decompressSource h' \<noteq> None"
  using assms
  by (auto simp add: Read_def split: current.splits prod.splits option.splits)

lemma gzRead_without_NewReader: "gzRead (G\<lparr>gzNewReader := f\<rparr>) = gzRead G"
  by simp

lemma Read_without_NewReader:
  "Read (G\<lparr>gzNewReader := f\<rparr>) len h = Read G len h"
  unfolding Read_def by (simp only: gzRead_without_NewReader)

lemma Read_Decompress_result:
  assumes "currentSource h = DecompressSource" and "Read G len h = Return (res, h')"
  shows "\<exists>z. decompressSource h' = Some z" and "currentSource h' = DecompressSource"
  using assms
  by (auto simp add: Read_def split: prod.splits option.splits)

lemma run_without_NewReader:
  "decompressSource h \<noteq> None \<Longrightarrow> run (G\<lparr>gzNewReader := f\<rparr>) ops h = run G ops h"
proof (induction ops arbitrary: h)
  case Nil
  then show ?case by simp
next
  case (Cons a ops)
  show ?case
  proof (cases a)
    case (OpSetReadMode mode)
    show ?thesis
    proof (cases "SetReadMode G mode h")
      case (Return h')
      have "decompressSource h' \<noteq> None"
        using Cons.prems Return by (rule SetReadMode_keeps_reader)
      with Cons.IH [of h'] Return OpSetReadMode Cons.prems show ?thesis
        by (simp add: SetReadMode_without_NewReader)
    next
      case (Panic p)
      with OpSetReadMode Cons.prems show ?thesis
        by (simp add: SetReadMode_without_NewReader)
    qed
  next
    case (OpRead len)
    show ?thesis
    proof (cases "Read G len h")
      case (Return r)
      obtain res h' where r: "r = (res, h')" by (cases r)
      have "decompressSource h' \<noteq> None"
        using Cons.prems Return [unfolded r] by (rule Read_keeps_reader)
      with Cons.IH [of h'] Return r OpRead show ?thesis
        by (simp add: Read_without_NewReader)
    next
      case (Panic p)
      with OpRead show ?thesis
        by (simp add: Read_without_NewReader)
    qed
  qed
qed

lemma current_update_id:
  "currentSource h = c \<Longrightarrow> h\<lparr>currentSource := c\<rparr> = h"
  by (cases h) simp

text \<open>
  Claim C7. Let \<^verbatim>\<open>SetReadMode\<close> with \<^verbatim>\<open>DecompressReadMode\<close>
  have returned on a handle. The handle then has a gzip reader, and if it had one before
  the call, it is that one and the raw source was not touched. A second such call changes
  nothing in the handle. \<^verbatim>\<open>RawReadMode\<close> changes only the current source,
  and switching back gives the handle as it was. After a read in decompress mode a
  repeated switch, directly or by way of raw mode, leaves the handle as the read left it,
  so the next read goes on where that read stopped. And whatever switches and reads follow,
  they run the same when \<^verbatim>\<open>gzip.NewReader\<close> is replaced by any other
  function: it is not called again.
\<close>

theorem SetReadMode_one_gzip_reader:
  assumes "SetReadMode G DecompressReadMode h = Return h1"
  shows "decompressSource h1 \<noteq> None \<and>
    (\<forall>z. decompressSource h = Some z \<longrightarrow>
       decompressSource h1 = Some z \<and> rawSource h1 = rawSource h) \<and>
    SetReadMode G DecompressReadMode h1 = Return h1 \<and>
    SetReadMode G RawReadMode h1 = Return (h1\<lparr>currentSource := RawSource\<rparr>) \<and>
    decompressSource (h1\<lparr>currentSource := RawSource\<rparr>) = decompressSource h1 \<and>
    SetReadMode G DecompressReadMode (h1\<lparr>currentSource := RawSource\<rparr>) = Return h1 \<and>
    (\<forall>len res h2. Read G len h1 = Return (res, h2) \<longrightarrow>
       SetReadMode G DecompressReadMode h2 = Return h2 \<and>
       SetReadMode G DecompressReadMode (h2\<lparr>currentSource := RawSource\<rparr>) = Return h2) \<and>
    (\<forall>f ops. run (G\<lparr>gzNewReader := f\<rparr>) ops h1 = run G ops h1)"
proof -
  from assms obtain z where z: "decompressSource h1 = Some z"
    and c: "currentSource h1 = DecompressSource"
    using SetReadMode_Decompress_result by blast
  have one: "decompressSource h1 \<noteq> None"
    using z by simp
  have two: "\<forall>z. decompressSource h = Some z \<longrightarrow>
       decompressSource h1 = Some z \<and> rawSource h1 = rawSource h"
    using SetReadMode_reuses [OF assms] by simp
  have three: "SetReadMode G DecompressReadMode h1 = Return h1"
    using z c by (simp add: SetReadMode_existing current_update_id)
  have four: "SetReadMode G RawReadMode h1 = Return (h1\<lparr>currentSource := RawSource\<rparr>)"
    by (rule SetReadMode_Raw)
  have five: "decompressSource (h1\<lparr>currentSource := RawSource\<rparr>) = decompressSource h1"
    by simp
  have six: "SetReadMode G DecompressReadMode (h1\<lparr>currentSource := RawSource\<rparr>) = Return h1"
    using z c by (simp add: SetReadMode_existing current_update_id)
  have seven: "SetReadMode G DecompressReadMode h2 = Return h2 \<and>
       SetReadMode G DecompressReadMode (h2\<lparr>currentSource := RawSource\<rparr>) = Return h2"
    if "Read G len h1 = Return (res, h2)" for len res h2
  proof -
    from Read_Decompress_result [OF c that] obtain z' where
      "decompressSource h2 = Some z'" and "currentSource h2 = DecompressSource"
      by blast
    then show ?thesis
      by (simp add: SetReadMode_existing current_update_id)
  qed
  have eight: "\<forall>f ops. run (G\<lparr>gzNewReader := f\<rparr>) ops h1 = run G ops h1"
    using one by (simp add: run_without_NewReader)
  from one two three four five six seven eight show ?thesis
    by blast
qed

text \<open>
  With \<open>plain_gzip\<close>: the first switch builds the gzip reader, which takes the two
  magic bytes from the source; the switches after it change nothing, and the second read
  delivers the byte that follows the two bytes of the first.
\<close>

theorem SetReadMode_one_gzip_reader_witness:
  "SetReadMode plain_gzip DecompressReadMode (rawHandle [0x1F, 0x8B, 1, 2, 3]) =
     Return (gzHandle [1, 2, 3]) \<and>
   SetReadMode plain_gzip DecompressReadMode (gzHandle [1, 2, 3]) =
     Return (gzHandle [1, 2, 3]) \<and>
   SetReadMode plain_gzip DecompressReadMode ((gzHandle [1, 2, 3])\<lparr>currentSource := RawSource\<rparr>) =
     Return (gzHandle [1, 2, 3]) \<and>
   Read plain_gzip 2 (gzHandle [1, 2, 3]) = Return (([1, 2], None), gzHandle [3]) \<and>
   SetReadMode plain_gzip DecompressReadMode (gzHandle [3]) = Return (gzHandle [3]) \<and>
   SetReadMode plain_gzip DecompressReadMode ((gzHandle [3])\<lparr>currentSource := RawSource\<rparr>) =
     Return (gzHandle [3]) \<and>
   Read plain_gzip 2 (gzHandle [3]) = Return (([3], None), gzHandle [])"
proof -
  have a: "SetReadMode plain_gzip DecompressReadMode (rawHandle [0x1F, 0x8B, 1, 2, 3]) =
      Return (gzHandle [1, 2, 3])"
    by (simp add: SetReadMode_def rawHandle_def gzHandle_def plain_gzip_def bytes_NewReader_def)
  have b: "Read plain_gzip 2 (gzHandle [1, 2, 3]) = Return (([1, 2], None), gzHandle [3])"
    by (simp add: Read_def gzHandle_def plain_gzip_def bytes_NewReader_def)
  have c: "Read plain_gzip 2 (gzHandle [3]) = Return (([3], None), gzHandle [])"
    by (simp add: Read_def gzHandle_def plain_gzip_def bytes_NewReader_def)
  note r = SetReadMode_one_gzip_reader [OF a]
  from r have d: "SetReadMode plain_gzip DecompressReadMode (gzHandle [1, 2, 3]) =
      Return (gzHandle [1, 2, 3])"
    and e: "SetReadMode plain_gzip DecompressReadMode
      ((gzHandle [1, 2, 3])\<lparr>currentSource := RawSource\<rparr>) = Return (gzHandle [1, 2, 3])"
    by blast+
  from r b have f: "SetReadMode plain_gzip DecompressReadMode (gzHandle [3]) =
      Return (gzHandle [3])"
    and g: "SetReadMode plain_gzip DecompressReadMode
      ((gzHandle [3])\<lparr>currentSource := RawSource\<rparr>) = Return (gzHandle [3])"
    by blast+
  from a b c d e f g show ?thesis
    by blast
qed

section \<open>What the header reader leaves in the source\<close>

lemma decodeHeader_empty:
  "decodeHeader (bytes_NewBuffer []) = (zeroHeader, Some EOF)"
  by (simp add: decodeHeader_def readNumber_def io_Read_full bytes_NewBuffer_def)

lemma ReadFileHeader_needs_5:
  assumes "length (unread src) < 5" and full: "perRead src = None"
  shows "snd (snd (fst (ReadFileHeader src))) \<noteq> None"
proof -
  consider "unread src = []" | a where "unread src = [a]" | a b where "unread src = [a, b]"
    | a b c where "unread src = [a, b, c]" | a b c d where "unread src = [a, b, c, d]"
  proof (cases "unread src")
    case Nil
    then show ?thesis using that by simp
  next
    case (Cons a l1)
    show ?thesis
    proof (cases l1)
      case Nil
      with Cons that show ?thesis by simp
    next
      case (Cons b l2)
      note c2 = this
      show ?thesis
      proof (cases l2)
        case Nil
        with \<open>unread src = a # l1\<close> c2 that show ?thesis by simp
      next
        case (Cons c l3)
        note c3 = this
        show ?thesis
        proof (cases l3)
          case Nil
          with \<open>unread src = a # l1\<close> c2 c3 that show ?thesis by simp
        next
          case (Cons d l4)
          with \<open>unread src = a # l1\<close> c2 c3 assms(1) have "l4 = []" by simp
          with \<open>unread src = a # l1\<close> c2 c3 Cons that show ?thesis by simp
        qed
      qed
    qed
  qed
  then show ?thesis
  proof cases
    case 1
    with full show ?thesis
      by (simp add: ReadFileHeader_def io_Read_full)
  next
    case 2
    with full show ?thesis
      by (simp add: ReadFileHeader_def io_Read_full readNumber_def Let_def)
  next
    case 3
    with full show ?thesis
      by (simp add: ReadFileHeader_def io_Read_full readNumber_def Let_def)
  next
    case 4
    with full show ?thesis
      by (simp add: ReadFileHeader_def io_Read_full readNumber_def Let_def fill_def
          decodeHeader_empty split: prod.split)
  next
    case 5
    with full show ?thesis
      by (simp add: ReadFileHeader_def io_Read_full readNumber_def Let_def fill_def
          decodeHeader_empty split: prod.split)
  qed
qed


lemma five_bytes:
  assumes "5 \<le> length (xs :: byte list)"
  obtains a b c d e rest where "xs = a # b # c # d # e # rest"
proof -
  from assms have "\<exists>a b c d e rest. xs = a # b # c # d # e # rest"
    by (auto simp add: Suc_le_length_iff numeral_eq_Suc)
  with that show ?thesis by blast
qed

lemma drop_4_more: "drop (4 + k) (a # b # c # d # xs) = drop k xs"
  by (simp add: numeral_eq_Suc)

lemma ReadFileHeader_source_after:
  assumes ok: "ReadFileHeader src = ((header, n, None), src')"
    and full: "perRead src = None"
  shows "src' = src\<lparr>unread := trailingRegion (unread src)\<rparr>"
proof -
  have "\<not> length (unread src) < 5"
    using ReadFileHeader_needs_5 [of src] ok full by auto
  then have "5 \<le> length (unread src)" by simp
  then obtain a b c d e rest where bs: "unread src = a # b # c # d # e # rest"
    by (rule five_bytes)
  let ?hl = "orBytes 2 [c, d]"
  have r1: "io_Read 2 src = (([a, b], None), src\<lparr>unread := c # d # e # rest\<rparr>)"
    using full by (simp add: io_Read_full bs)
  have r2: "readNumber 2 (src\<lparr>unread := c # d # e # rest\<rparr>) =
      ((?hl, None), src\<lparr>unread := e # rest\<rparr>)"
    using full by (simp add: readNumber_def io_Read_full fill_def)
  have r3: "io_Read (unat ?hl) (src\<lparr>unread := e # rest\<rparr>) =
      ((take (unat ?hl) (e # rest), None), src\<lparr>unread := drop (unat ?hl) (e # rest)\<rparr>)"
    using full by (simp add: io_Read_full)
  have nth: "(a # b # c # d # e # rest) ! 2 = c" "(a # b # c # d # e # rest) ! 3 = d"
    by simp_all
  have t: "trailingRegion (unread src) = drop (unat ?hl) (e # rest)"
    by (simp only: trailingRegion_def bs nth unat_orBytes_2 drop_4_more)
  from ok show ?thesis
    by (simp add: ReadFileHeader_def r1 r2 r3 t Let_def fill_def
        split: if_splits prod.splits)
qed


section \<open>The handle that ReadFile returns\<close>

lemma ReadFile_Some:
  "ReadFile G (Some src) =
     (case ReadFileHeader src of
        ((header, n, None), src') \<Rightarrow>
          Return (Some \<lparr>Header = header, decompressSource = None, rawSource = src',
                         currentSource = RawSource\<rparr>, None)
      | ((header, n, Some e), src') \<Rightarrow>
          Return (Some \<lparr>Header = header, decompressSource = None, rawSource = src',
                         currentSource = NoSource\<rparr>, Some e))"
  by (simp add: ReadFile_def SetReadMode_Raw split: prod.split option.split)

lemma ReadFile_success:
  assumes "ReadFile G (Some src) = Return (Some handle, None)"
  obtains header n where
    "ReadFileHeader src = ((header, n, None), rawSource handle)"
    "handle = \<lparr>Header = header, decompressSource = None, rawSource = rawSource handle,
               currentSource = RawSource\<rparr>"
  using assms
  by (auto simp add: ReadFile_Some split: prod.splits option.splits)

lemma raw_update_id: "unread r = bs \<Longrightarrow> r\<lparr>unread := bs\<rparr> = r"
  by (cases r) simp

lemma Read_raw:
  "currentSource h = RawSource \<Longrightarrow>
     Read G len h =
       Return (fst (io_Read len (rawSource h)), h\<lparr>rawSource := snd (io_Read len (rawSource h))\<rparr>)"
  by (simp add: Read_def split: prod.split)

lemma readCount_pos: "0 < c \<Longrightarrow> 0 < readCount c r"
  by (simp add: readCount_def split: option.split)

lemma ReadAll_raw:
  assumes "0 < c"
  shows "currentSource h = RawSource \<Longrightarrow> length (unread (rawSource h)) < fuel \<Longrightarrow>
    ReadAll fuel G c h acc =
      Some (Return ((acc @ unread (rawSource h), None),
                    h\<lparr>rawSource := (rawSource h)\<lparr>unread := []\<rparr>\<rparr>))"
proof (induction fuel arbitrary: h acc)
  case 0
  then show ?case by simp
next
  case (Suc fuel)
  show ?case
  proof (cases "unread (rawSource h) = []")
    case True
    then have "io_Read c (rawSource h) = (([], Some EOF), rawSource h)"
      using assms by (simp add: io_Read_def)
    with Suc.prems(1) True show ?thesis
      by (simp add: Read_raw raw_update_id)
  next
    case False
    let ?k = "readCount c (rawSource h)"
    let ?h' = "h\<lparr>rawSource := (rawSource h)\<lparr>unread := drop ?k (unread (rawSource h))\<rparr>\<rparr>"
    from False have rd: "io_Read c (rawSource h) =
        ((take ?k (unread (rawSource h)), None),
         (rawSource h)\<lparr>unread := drop ?k (unread (rawSource h))\<rparr>)"
      by (simp add: io_Read_def)
    from False have "0 < length (unread (rawSource h))"
      by simp
    moreover have "0 < ?k"
      using assms by (rule readCount_pos)
    ultimately have "length (unread (rawSource h)) - ?k < fuel"
      using Suc.prems(2) by arith
    then have "length (unread (rawSource ?h')) < fuel"
      by simp
    moreover have "currentSource ?h' = RawSource"
      using Suc.prems(1) by simp
    ultimately have "ReadAll fuel G c ?h' (acc @ take ?k (unread (rawSource h))) =
        Some (Return (((acc @ take ?k (unread (rawSource h))) @ unread (rawSource ?h'), None),
                      ?h'\<lparr>rawSource := (rawSource ?h')\<lparr>unread := []\<rparr>\<rparr>))"
      by (rule Suc.IH [rotated])
    with Suc.prems(1) rd show ?thesis
      by (simp add: Read_raw)
  qed
qed

section \<open>A source that makes short reads\<close>

lemma replicate_10_more:
  "replicate (10 + m) (0 :: byte) = [0, 0, 0, 0, 0] @ 0 # [0, 0] @ [0, 0] @ replicate m 0"
  by (simp add: replicate_add numeral_eq_Suc)

lemma numberBytes_zero_5: "numberBytes 0 5 = [0, 0, 0, 0, 0]"
  by (simp add: numberBytes_def upt5)

lemma stringBytes_empty: "stringBytes [] = [0, 0]"
  by (simp add: stringBytes_def numberBytes_def upt2)

lemma decodeHeader_zeros:
  assumes "10 \<le> n"
  shows "decodeHeader (bytes_NewBuffer (replicate n 0)) = (epochHeader, None)"
proof -
  obtain m where n: "n = 10 + m"
    using assms by (metis le_add_diff_inverse)
  let ?r0 = "bytes_NewBuffer (replicate n 0)"
  let ?r1 = "?r0\<lparr>unread := 0 # stringBytes [] @ stringBytes [] @ replicate m 0\<rparr>"
  let ?r2 = "?r0\<lparr>unread := stringBytes [] @ stringBytes [] @ replicate m 0\<rparr>"
  let ?r3 = "?r0\<lparr>unread := stringBytes [] @ replicate m 0\<rparr>"
  let ?r4 = "?r0\<lparr>unread := replicate m 0\<rparr>"
  have u: "unread ?r0 = numberBytes 0 5 @ 0 # stringBytes [] @ stringBytes [] @ replicate m 0"
    by (simp only: n replicate_10_more numberBytes_zero_5 stringBytes_empty)
       (simp add: bytes_NewBuffer_def)
  have "readNumber 5 ?r0 = ((take_bit 40 0, None), ?r1)"
    using u by (intro readNumber_5_prefix) (simp_all add: bytes_NewBuffer_def)
  then have a: "readNumber 5 ?r0 = ((0, None), ?r1)"
    by simp
  have b: "ReadByte ?r1 = ((0, None), ?r2)"
    by (simp add: ReadByte_def)
  have c: "readLengthPrefixedString ?r2 = (([], 2 + int (length ([] :: byte list)), None), ?r3)"
    using readLengthPrefixedString_prefix [of ?r2 "[]" "stringBytes [] @ replicate m 0"]
    by (simp add: bytes_NewBuffer_def)
  have d: "readLengthPrefixedString ?r3 = (([], 2 + int (length ([] :: byte list)), None), ?r4)"
    using readLengthPrefixedString_prefix [of ?r3 "[]" "replicate m 0"]
    by (simp add: bytes_NewBuffer_def)
  show ?thesis
    by (simp add: decodeHeader_def a b c d zeroHeader_def epochHeader_def)
qed

lemma orBytes_FA00: "unat (orBytes 2 (fill 2 [0xFA])) = 64000"
proof -
  have "orBytes 2 (fill 2 [0xFA]) = 0xFA00"
    by (simp add: orBytes_def fill_def upt2)
  then show ?thesis
    by simp
qed

lemma fill_one_zero: "0 < n \<Longrightarrow> fill n [0] = replicate n 0"
  by (cases n) (simp_all add: fill_def)

lemma ReadFileHeader_one_byte_reads:
  "ReadFileHeader (iotest_OneByteReader (0xFA # 0xFA # 0 # rest)) =
     ((epochHeader, 1, None), iotest_OneByteReader rest)"
proof -
  let ?s0 = "iotest_OneByteReader (0xFA # 0xFA # 0 # rest)"
  let ?s1 = "iotest_OneByteReader (0xFA # 0 # rest)"
  let ?s2 = "iotest_OneByteReader (0 # rest)"
  have r1: "io_Read 2 ?s0 = (([0xFA], None), ?s1)"
    by (simp add: io_Read_def readCount_def iotest_OneByteReader_def)
  have m: "\<not> (fill 2 [0xFA :: byte] ! 0 \<noteq> fill 2 [0xFA] ! 1 \<and> fill 2 [0xFA :: byte] ! 0 \<noteq> 0xFA)"
    by (simp add: fill_def)
  have "io_Read 2 ?s1 = (([0xFA], None), ?s2)"
    by (simp add: io_Read_def readCount_def iotest_OneByteReader_def)
  then have r2: "readNumber 2 ?s1 = ((orBytes 2 (fill 2 [0xFA]), None), ?s2)"
    by (simp add: readNumber_def)
  have r3: "io_Read 64000 ?s2 = (([0], None), iotest_OneByteReader rest)"
    by (simp add: io_Read_def readCount_def iotest_OneByteReader_def)
  have f: "fill 64000 [0] = replicate 64000 0"
    by (rule fill_one_zero) simp
  have "decodeHeader (bytes_NewBuffer (replicate 64000 0)) = (epochHeader, None)"
    by (rule decodeHeader_zeros) simp
  then have d: "decodeHeader (bytes_NewBuffer (fill 64000 [0])) = (epochHeader, None)"
    by (simp only: f)
  show ?thesis
    unfolding ReadFileHeader_def r1
    using m by (simp add: r2 orBytes_FA00 r3 d Let_def)
qed


lemma exampleContainer_split:
  "exampleContainer = 0xFA # 0xFA # 0 # drop 3 exampleContainer"
  by (simp add: exampleContainer_def)

lemma trailingRegion_example:
  "trailingRegion exampleContainer = [0x1F, 0x8B, 1, 2, 3]"
  by code_simp

lemma ReadFile_one_byte_reads:
  "ReadFile G (Some (iotest_OneByteReader exampleContainer)) =
     Return (Some \<lparr>Header = epochHeader, decompressSource = None,
                    rawSource = iotest_OneByteReader (drop 3 exampleContainer),
                    currentSource = RawSource\<rparr>, None)"
proof -
  have "ReadFileHeader (iotest_OneByteReader (0xFA # 0xFA # 0 # drop 3 exampleContainer)) =
      ((epochHeader, 1, None), iotest_OneByteReader (drop 3 exampleContainer))"
    by (rule ReadFileHeader_one_byte_reads)
  then have "ReadFileHeader (iotest_OneByteReader exampleContainer) =
      ((epochHeader, 1, None), iotest_OneByteReader (drop 3 exampleContainer))"
    by (simp only: exampleContainer_split [symmetric])
  then show ?thesis
    unfolding ReadFile_Some by simp
qed

lemma epochHeader_differs:
  "epochHeader \<noteq> testFileHeader\<lparr>UploadDate := time_Unix (unixSec (UploadDate testFileHeader)) 0\<rparr>"
  by (simp add: epochHeader_def testFileHeader_def time_Unix_def)

section \<open>Reading a handle in raw mode\<close>

text \<open>
  When \<^verbatim>\<open>ReadFile\<close> has returned a handle without error, the handle has no
  gzip reader and reads from the raw source. \<^verbatim>\<open>ReadFile\<close> returns the same
  when the functions of the gzip library are replaced by any others: it calls none of
  them. A read in this mode is a read of the raw source, and reading to the end returns
  what the raw source has left, byte for byte, and again leaves the handle without a gzip
  reader. When the source fills every read, what it has left is the trailing region of
  the container. (The earlier revision in the same file called
  \<^verbatim>\<open>gzip.NewReader\<close> inside \<^verbatim>\<open>ReadFile\<close>; the later one,
  which is modelled, does not.)
\<close>

lemma ReadFile_is_lazy:
  assumes "ReadFile G (Some src) = Return (Some handle, None)" and "0 < c"
  shows "decompressSource handle = None \<and>
    currentSource handle = RawSource \<and>
    (\<forall>w n r cl. ReadFile \<lparr>gzWriteAll = w, gzNewReader = n, gzRead = r, gzClose = cl\<rparr> (Some src) =
       Return (Some handle, None)) \<and>
    (\<forall>len. Read G len handle =
       Return (fst (io_Read len (rawSource handle)),
               handle\<lparr>rawSource := snd (io_Read len (rawSource handle))\<rparr>)) \<and>
    ReadAll (Suc (length (unread (rawSource handle)))) G c handle [] =
      Some (Return ((unread (rawSource handle), None),
                    handle\<lparr>rawSource := (rawSource handle)\<lparr>unread := []\<rparr>\<rparr>)) \<and>
    (perRead src = None \<longrightarrow> unread (rawSource handle) = trailingRegion (unread src))"
proof -
  from assms(1) obtain header n where
    hd: "ReadFileHeader src = ((header, n, None), rawSource handle)"
    and h: "handle = \<lparr>Header = header, decompressSource = None, rawSource = rawSource handle,
               currentSource = RawSource\<rparr>"
    by (rule ReadFile_success)
  have one: "decompressSource handle = None"
    by (subst h) simp
  have two: "currentSource handle = RawSource"
    by (subst h) simp
  have three: "unread (rawSource handle) = trailingRegion (unread src)" if "perRead src = None"
  proof -
    have "rawSource handle = src\<lparr>unread := trailingRegion (unread src)\<rparr>"
      using hd that by (rule ReadFileHeader_source_after)
    then show ?thesis
      by simp
  qed
  have four: "\<forall>w n r cl.
      ReadFile \<lparr>gzWriteAll = w, gzNewReader = n, gzRead = r, gzClose = cl\<rparr> (Some src) =
        Return (Some handle, None)"
    using assms(1) by (simp add: ReadFile_Some)
  have five: "\<forall>len. Read G len handle =
       Return (fst (io_Read len (rawSource handle)),
               handle\<lparr>rawSource := snd (io_Read len (rawSource handle))\<rparr>)"
    using two by (simp add: Read_raw)
  have six: "ReadAll (Suc (length (unread (rawSource handle)))) G c handle [] =
      Some (Return ((unread (rawSource handle), None),
                    handle\<lparr>rawSource := (rawSource handle)\<lparr>unread := []\<rparr>\<rparr>))"
    using ReadAll_raw [OF assms(2) two, of "Suc (length (unread (rawSource handle)))" G "[]"]
    by simp
  from one two three four five six show ?thesis
    by blast
qed

text \<open>
  Claim C8 says that for every valid container the handle that
  \<^verbatim>\<open>ReadFile\<close> returns has no gzip reader and that reading it in raw mode
  yields the trailing region of the container. The handle has no gzip reader, but
  \<^verbatim>\<open>ReadFileHeader\<close> drops the count of every \<^verbatim>\<open>Read\<close>.
  When the source delivers the container of the example one byte for each
  \<^verbatim>\<open>Read\<close>, the second byte of the marker is taken for the high byte of the
  header length and one zero byte for the whole header: \<^verbatim>\<open>ReadFile\<close>
  returns no error, a header of zeros, and a source that stands at offset 3. Reading the
  handle to the end in raw mode returns the 43 bytes from there on, not the 5 bytes of
  the trailing region.
\<close>

theorem ReadFile_short_reads_miss_the_trailing_region:
  fixes G :: "'z gzip"
  shows "ReadFile G (Some (iotest_OneByteReader exampleContainer)) =
     Return (Some \<lparr>Header = epochHeader, decompressSource = None,
                    rawSource = iotest_OneByteReader (drop 3 exampleContainer),
                    currentSource = RawSource\<rparr>, None) \<and>
   ReadAll 44 G 512
     \<lparr>Header = epochHeader, decompressSource = None,
      rawSource = iotest_OneByteReader (drop 3 exampleContainer),
      currentSource = RawSource\<rparr> [] =
     Some (Return ((drop 3 exampleContainer, None),
       \<lparr>Header = epochHeader, decompressSource = None,
        rawSource = iotest_OneByteReader [], currentSource = RawSource\<rparr>)) \<and>
   length (drop 3 exampleContainer) = 43 \<and>
   trailingRegion exampleContainer = [0x1F, 0x8B, 1, 2, 3] \<and>
   epochHeader \<noteq> testFileHeader"
proof -
  let ?h = "\<lparr>Header = epochHeader, decompressSource = (None :: 'z option),
      rawSource = iotest_OneByteReader (drop 3 exampleContainer),
      currentSource = RawSource\<rparr>"
  have l: "length (drop 3 exampleContainer) = 43"
    by (simp add: exampleContainer_def)
  have u: "unread (rawSource ?h) = drop 3 exampleContainer"
    by (simp add: iotest_OneByteReader_def)
  have "ReadAll 44 G 512 ?h [] =
      Some (Return (([] @ unread (rawSource ?h), None),
                    ?h\<lparr>rawSource := (rawSource ?h)\<lparr>unread := []\<rparr>\<rparr>))"
    by (rule ReadAll_raw) (simp_all add: iotest_OneByteReader_def exampleContainer_def)
  then have r: "ReadAll 44 G 512 ?h [] =
      Some (Return ((drop 3 exampleContainer, None),
        \<lparr>Header = epochHeader, decompressSource = None,
         rawSource = iotest_OneByteReader [], currentSource = RawSource\<rparr>))"
    by (simp add: iotest_OneByteReader_def)
  have d: "epochHeader \<noteq> testFileHeader"
    by (simp add: epochHeader_def testFileHeader_def time_Unix_def)
  from ReadFile_one_byte_reads [of G] r l trailingRegion_example d show ?thesis
    by blast
qed


section \<open>Writing a container and reading it back\<close>

lemma length_headerBuffer:
  "length (headerBuffer H) = 10 + length (MimeType H) + length (OriginalName H)"
  by (simp add: headerBuffer_def stringBytes_def length_numberBytes)

lemma ReadAll_decompress:
  "currentSource h = DecompressSource \<Longrightarrow> decompressSource h = Some z \<Longrightarrow>
   gzReadAll fuel G c z (unread (rawSource h)) acc = Some (res, z', rest') \<Longrightarrow>
   ReadAll fuel G c h acc =
     Some (Return (res, h\<lparr>decompressSource := Some z',
                             rawSource := (rawSource h)\<lparr>unread := rest'\<rparr>\<rparr>))"
proof (induction fuel arbitrary: h z acc)
  case 0
  then show ?case by simp
next
  case (Suc fuel)
  obtain bs err z1 rest1 where rd: "gzRead G c z (unread (rawSource h)) = ((bs, err), z1, rest1)"
    by (metis prod.exhaust)
  let ?h1 = "h\<lparr>decompressSource := Some z1, rawSource := (rawSource h)\<lparr>unread := rest1\<rparr>\<rparr>"
  have read: "Read G c h = Return ((bs, err), ?h1)"
    using Suc.prems(1,2) rd by (simp add: Read_def)
  show ?case
  proof (cases err)
    case None
    with Suc.prems(3) rd have "gzReadAll fuel G c z1 rest1 (acc @ bs) = Some (res, z', rest')"
      by simp
    then have "gzReadAll fuel G c z1 (unread (rawSource ?h1)) (acc @ bs) = Some (res, z', rest')"
      by simp
    moreover have "currentSource ?h1 = DecompressSource" "decompressSource ?h1 = Some z1"
      using Suc.prems(1) by simp_all
    ultimately have "ReadAll fuel G c ?h1 (acc @ bs) =
        Some (Return (res, ?h1\<lparr>decompressSource := Some z',
                                  rawSource := (rawSource ?h1)\<lparr>unread := rest'\<rparr>\<rparr>))"
      by (rule Suc.IH [rotated 2])
    with read None show ?thesis
      by simp
  next
    case (Some e)
    with Suc.prems(3) rd read show ?thesis
      by auto
  qed
qed

lemma numberBytes_65536: "numberBytes (word_of_nat 65536) 2 = [0, 0]"
  by (simp add: numberBytes_def upt2)

lemma ReadFileHeader_wrapped_length:
  assumes full: "perRead src = None"
    and u: "unread src = [0xFA, 0xFA, 0, 0] @ hb"
    and ne: "hb \<noteq> []"
  shows "ReadFileHeader src = ((zeroHeader, 2, Some EOF), src\<lparr>unread := hb\<rparr>)"
proof -
  have r1: "io_Read 2 src = (([0xFA, 0xFA], None), src\<lparr>unread := 0 # 0 # hb\<rparr>)"
    using u full by (simp add: io_Read_full)
  have "io_Read 2 (src\<lparr>unread := 0 # 0 # hb\<rparr>) = (([0, 0], None), src\<lparr>unread := hb\<rparr>)"
    using full by (simp add: io_Read_full)
  moreover have "orBytes 2 (fill 2 [0, 0]) = 0"
    by (simp add: orBytes_def fill_def upt2)
  ultimately have r2: "readNumber 2 (src\<lparr>unread := 0 # 0 # hb\<rparr>) =
      ((0, None), src\<lparr>unread := hb\<rparr>)"
    by (simp add: readNumber_def)
  have r3: "io_Read 0 (src\<lparr>unread := hb\<rparr>) = (([], None), src\<lparr>unread := hb\<rparr>)"
    using ne full by (simp add: io_Read_full)
  show ?thesis
    unfolding ReadFileHeader_def r1
    by (simp add: r2 r3 fill_def decodeHeader_empty Let_def)
qed

lemma length_headerBuffer_longHeader: "length (headerBuffer longHeader) = 65536"
  by (simp add: length_headerBuffer longHeader_def epochHeader_def)

lemma WriteFile_longHeader:
  "WriteFile plain_gzip (Some []) longHeader (Some (bytes_NewReader examplePayload)) =
     ((65543, None),
      Some ([0xFA, 0xFA, 0, 0] @ headerBuffer longHeader @ gzWriteAll plain_gzip examplePayload),
      Some (bytes_NewReader []))"
proof -
  have "numberBytes (word_of_nat (length (headerBuffer longHeader))) 2 = [0, 0]"
    by (simp only: length_headerBuffer_longHeader numberBytes_65536)
  then show ?thesis
    unfolding WriteFile_Some
    by (simp add: length_headerBuffer_longHeader bytes_NewReader_def examplePayload_def)
qed

lemma ReadFile_longHeader:
  "ReadFile plain_gzip (Some (bytes_NewReader
     ([0xFA, 0xFA, 0, 0] @ headerBuffer longHeader @ gzWriteAll plain_gzip examplePayload))) =
     Return (Some \<lparr>Header = zeroHeader, decompressSource = None,
                    rawSource = bytes_NewReader
                      (headerBuffer longHeader @ gzWriteAll plain_gzip examplePayload),
                    currentSource = NoSource\<rparr>, Some EOF)"
proof -
  let ?hb = "headerBuffer longHeader @ gzWriteAll plain_gzip examplePayload"
  have "?hb \<noteq> []"
    by (simp add: plain_gzip_def)
  then have "ReadFileHeader (bytes_NewReader ([0xFA, 0xFA, 0, 0] @ ?hb)) =
      ((zeroHeader, 2, Some EOF), (bytes_NewReader ([0xFA, 0xFA, 0, 0] @ ?hb))\<lparr>unread := ?hb\<rparr>)"
    by (intro ReadFileHeader_wrapped_length) (simp_all add: bytes_NewReader_def)
  then show ?thesis
    unfolding ReadFile_Some by (simp add: bytes_NewReader_def)
qed


text \<open>
  Claim C1, amended. Let the upload time of the header be not before the epoch with a
  count of nanoseconds that fits \<^verbatim>\<open>int64\<close>, let the encoded header fit the
  two-byte header length (the two strings have at most 65525 bytes together), and let the
  gzip library read back what it wrote for the payload: \<^verbatim>\<open>gzip.NewReader\<close>
  accepts the stream and reading its reader to the end returns the payload.
  Then \<^verbatim>\<open>WriteFile\<close> into an empty buffer succeeds, and for every source
  that holds what it wrote and fills every read as far as bytes are left,
  \<^verbatim>\<open>ReadFile\<close> returns a handle whose header is the header written with
  the time cut to whole seconds, the switch to \<^verbatim>\<open>DecompressReadMode\<close>
  returns, and reading the handle to the end returns the payload and no error.
\<close>

theorem container_roundtrip:
  fixes G :: "'z gzip"
  assumes t: "0 \<le> unixSec (UploadDate H)" "0 \<le> nsec (UploadDate H)"
      "nsec (UploadDate H) < 1000000000"
      "unixSec (UploadDate H) * 1000000000 + nsec (UploadDate H) < 2 ^ 63"
    and len: "length (MimeType H) + length (OriginalName H) \<le> 65525"
    and new: "gzNewReader G (gzWriteAll G (unread src)) = Inr (z, rest)"
    and all: "gzReadAll fuel G c z rest [] = Some ((unread src, None), z', rest')"
  shows "\<exists>n container src'.
    WriteFile G (Some []) H (Some src) = ((n, None), Some container, src') \<and>
    (\<forall>rd. unread rd = container \<and> perRead rd = None \<longrightarrow>
       (\<exists>handle handle2 handle3.
          ReadFile G (Some rd) = Return (Some handle, None) \<and>
          Header handle = H\<lparr>UploadDate := time_Unix (unixSec (UploadDate H)) 0\<rparr> \<and>
          SetReadMode G DecompressReadMode handle = Return handle2 \<and>
          ReadAll fuel G c handle2 [] = Some (Return ((unread src, None), handle3))))"
proof -
  let ?hb = "headerBuffer H"
  let ?gz = "gzWriteAll G (unread src)"
  let ?container = "[0xFA, 0xFA] @ numberBytes (word_of_nat (length ?hb)) 2 @ ?hb @ ?gz"
  let ?H' = "H\<lparr>UploadDate := time_Unix (unixSec (UploadDate H)) 0\<rparr>"
  have w: "WriteFile G (Some []) H (Some src) =
      ((4 + int (length ?hb) + int (length (unread src)), None), Some ?container,
       Some (src\<lparr>unread := []\<rparr>))"
    by (simp add: WriteFile_Some)
  have hl: "length ?hb < 65536" and hne: "?hb \<noteq> []"
    using len length_headerBuffer [of H] by auto
  have m: "length (MimeType H) < 65536" and o: "length (OriginalName H) < 65536"
    using len by simp_all
  have d: "decodeHeader (bytes_NewBuffer ?hb) = (?H', None)"
    using t m o by (rule decodeHeader_headerBuffer)
  have reads: "\<exists>handle handle2 handle3.
      ReadFile G (Some rd) = Return (Some handle, None) \<and>
      Header handle = ?H' \<and>
      SetReadMode G DecompressReadMode handle = Return handle2 \<and>
      ReadAll fuel G c handle2 [] = Some (Return ((unread src, None), handle3))"
    if u: "unread rd = ?container" and full: "perRead rd = None" for rd
  proof -
    let ?handle = "\<lparr>Header = ?H', decompressSource = (None :: 'z option),
        rawSource = rd\<lparr>unread := ?gz\<rparr>, currentSource = RawSource\<rparr>"
    let ?handle2 = "?handle\<lparr>decompressSource := Some z,
        rawSource := (rawSource ?handle)\<lparr>unread := rest\<rparr>,
        currentSource := DecompressSource\<rparr>"
    have "ReadFileHeader rd =
        ((fst (decodeHeader (bytes_NewBuffer ?hb)), 2, snd (decodeHeader (bytes_NewBuffer ?hb))),
         rd\<lparr>unread := ?gz\<rparr>)"
      using full u hne hl by (rule ReadFileHeader_container)
    then have rh: "ReadFileHeader rd = ((?H', 2, None), rd\<lparr>unread := ?gz\<rparr>)"
      by (simp only: d fst_conv snd_conv)
    have rf: "ReadFile G (Some rd) = Return (Some ?handle, None)"
      unfolding ReadFile_Some rh by simp
    have sm: "SetReadMode G DecompressReadMode ?handle = Return ?handle2"
      using new by (simp add: SetReadMode_def)
    have "gzReadAll fuel G c z (unread (rawSource ?handle2)) [] =
        Some ((unread src, None), z', rest')"
      using all by simp
    then have ra: "ReadAll fuel G c ?handle2 [] =
        Some (Return ((unread src, None),
          ?handle2\<lparr>decompressSource := Some z',
                     rawSource := (rawSource ?handle2)\<lparr>unread := rest'\<rparr>\<rparr>))"
      by (intro ReadAll_decompress [where z = z]) simp_all
    have hd: "Header ?handle = ?H'"
      by simp
    from rf hd sm ra show ?thesis
      by blast
  qed
  from w reads show ?thesis
    by blast
qed

lemma WriteFile_example:
  "WriteFile plain_gzip (Some []) testFileHeader (Some (bytes_NewReader examplePayload)) =
     ((44, None), Some exampleContainer, Some (bytes_NewReader []))"
  by code_simp

text \<open>
  The header of the tests and the payload of the example, with \<open>plain_gzip\<close>: the
  hypotheses hold, 44 is returned for the 46 bytes of the container, and the container
  reads back from a \<^verbatim>\<open>bytes.Reader\<close>.
\<close>

theorem container_roundtrip_witness:
  "0 \<le> unixSec (UploadDate testFileHeader) \<and>
   0 \<le> nsec (UploadDate testFileHeader) \<and>
   nsec (UploadDate testFileHeader) < 1000000000 \<and>
   unixSec (UploadDate testFileHeader) * 1000000000 + nsec (UploadDate testFileHeader) < 2 ^ 63 \<and>
   length (MimeType testFileHeader) + length (OriginalName testFileHeader) \<le> 65525 \<and>
   gzNewReader plain_gzip (gzWriteAll plain_gzip (unread (bytes_NewReader examplePayload))) =
     Inr ((), examplePayload) \<and>
   gzReadAll 2 plain_gzip 512 () examplePayload [] =
     Some ((unread (bytes_NewReader examplePayload), None), (), []) \<and>
   WriteFile plain_gzip (Some []) testFileHeader (Some (bytes_NewReader examplePayload)) =
     ((44, None), Some exampleContainer, Some (bytes_NewReader [])) \<and>
   unread (bytes_NewReader exampleContainer) = exampleContainer \<and>
   perRead (bytes_NewReader exampleContainer) = None \<and>
   (\<exists>handle handle2 handle3.
      ReadFile plain_gzip (Some (bytes_NewReader exampleContainer)) = Return (Some handle, None) \<and>
      Header handle =
        testFileHeader\<lparr>UploadDate := time_Unix (unixSec (UploadDate testFileHeader)) 0\<rparr> \<and>
      SetReadMode plain_gzip DecompressReadMode handle = Return handle2 \<and>
      ReadAll 2 plain_gzip 512 handle2 [] =
        Some (Return ((unread (bytes_NewReader examplePayload), None), handle3)))"
proof -
  have a: "0 \<le> unixSec (UploadDate testFileHeader)"
    and b: "0 \<le> nsec (UploadDate testFileHeader)"
    and c: "nsec (UploadDate testFileHeader) < 1000000000"
    and d: "unixSec (UploadDate testFileHeader) * 1000000000 + nsec (UploadDate testFileHeader)
        < 2 ^ 63"
    and e: "length (MimeType testFileHeader) + length (OriginalName testFileHeader) \<le> 65525"
    by (simp_all add: testFileHeader_def time_Unix_def)
  have f: "gzNewReader plain_gzip (gzWriteAll plain_gzip (unread (bytes_NewReader examplePayload))) =
      Inr ((), examplePayload)"
    by (simp add: plain_gzip_def bytes_NewReader_def)
  have g: "gzReadAll 2 plain_gzip 512 () examplePayload [] =
      Some ((unread (bytes_NewReader examplePayload), None), (), [])"
    by code_simp
  have u: "unread (bytes_NewReader exampleContainer) = exampleContainer"
    and p: "perRead (bytes_NewReader exampleContainer) = None"
    by (simp_all add: bytes_NewReader_def)
  note w = WriteFile_example
  from container_roundtrip [OF a b c d e f g] obtain n container src'
    where w': "WriteFile plain_gzip (Some []) testFileHeader (Some (bytes_NewReader examplePayload)) =
        ((n, None), Some container, src')"
      and r: "\<forall>rd. unread rd = container \<and> perRead rd = None \<longrightarrow>
        (\<exists>handle handle2 handle3.
          ReadFile plain_gzip (Some rd) = Return (Some handle, None) \<and>
          Header handle =
            testFileHeader\<lparr>UploadDate := time_Unix (unixSec (UploadDate testFileHeader)) 0\<rparr> \<and>
          SetReadMode plain_gzip DecompressReadMode handle = Return handle2 \<and>
          ReadAll 2 plain_gzip 512 handle2 [] =
            Some (Return ((unread (bytes_NewReader examplePayload), None), handle3)))"
    by blast
  from w w' have "container = exampleContainer"
    by simp
  with r u p have "\<exists>handle handle2 handle3.
      ReadFile plain_gzip (Some (bytes_NewReader exampleContainer)) = Return (Some handle, None) \<and>
      Header handle =
        testFileHeader\<lparr>UploadDate := time_Unix (unixSec (UploadDate testFileHeader)) 0\<rparr> \<and>
      SetReadMode plain_gzip DecompressReadMode handle = Return handle2 \<and>
      ReadAll 2 plain_gzip 512 handle2 [] =
        Some (Return ((unread (bytes_NewReader examplePayload), None), handle3))"
    by blast
  with a b c d e f g w u p show ?thesis
    by blast
qed

lemma WriteFile_before_epoch:
  "WriteFile plain_gzip (Some []) (zeroHeader\<lparr>UploadDate := time_Unix (- 1) 0\<rparr>)
     (Some (bytes_NewReader [])) =
     ((14, None),
      Some [0xFA, 0xFA, 0, 10, 0xFF, 0xFF, 0xFF, 0xFF, 0xFF, 0, 0, 0, 0, 0, 0x1F, 0x8B],
      Some (bytes_NewReader []))"
  by code_simp

lemma ReadFileHeader_before_epoch:
  "ReadFileHeader (bytes_NewReader
     [0xFA, 0xFA, 0, 10, 0xFF, 0xFF, 0xFF, 0xFF, 0xFF, 0, 0, 0, 0, 0, 0x1F, 0x8B]) =
     ((zeroHeader\<lparr>UploadDate := time_Unix 1099511627775 0\<rparr>, 2, None),
      bytes_NewReader [0x1F, 0x8B])"
  by code_simp

text \<open>
  Claim C1 as stated fails in three ways. For a header whose upload time is one second
  before the epoch the container is written and read without error, but the header that
  comes back has the time 1099511627775, the low 40 bits of \<open>-1\<close>. For a header
  whose MIME type has 65526 bytes the encoded header has 65536 bytes:
  \<^verbatim>\<open>WriteFile\<close> returns no error and writes the header length
  \<open>00 00\<close>, and \<^verbatim>\<open>ReadFile\<close> fails on what it wrote with
  \<^verbatim>\<open>io.EOF\<close>. And when the container of the example, which reads back from
  a \<^verbatim>\<open>bytes.Reader\<close>, comes from a source that delivers one byte for each
  \<^verbatim>\<open>Read\<close>, \<^verbatim>\<open>ReadFile\<close> returns no error and a header of
  zeros.
\<close>

theorem container_roundtrip_counterexample:
  "WriteFile plain_gzip (Some []) (zeroHeader\<lparr>UploadDate := time_Unix (- 1) 0\<rparr>)
     (Some (bytes_NewReader [])) =
     ((14, None),
      Some [0xFA, 0xFA, 0, 10, 0xFF, 0xFF, 0xFF, 0xFF, 0xFF, 0, 0, 0, 0, 0, 0x1F, 0x8B],
      Some (bytes_NewReader [])) \<and>
   ReadFile plain_gzip (Some (bytes_NewReader
     [0xFA, 0xFA, 0, 10, 0xFF, 0xFF, 0xFF, 0xFF, 0xFF, 0, 0, 0, 0, 0, 0x1F, 0x8B])) =
     Return (Some \<lparr>Header = zeroHeader\<lparr>UploadDate := time_Unix 1099511627775 0\<rparr>,
                    decompressSource = None, rawSource = bytes_NewReader [0x1F, 0x8B],
                    currentSource = RawSource\<rparr>, None) \<and>
   zeroHeader\<lparr>UploadDate := time_Unix 1099511627775 0\<rparr> \<noteq>
     zeroHeader\<lparr>UploadDate := time_Unix (- 1) 0\<rparr> \<and>
   length (MimeType longHeader) + length (OriginalName longHeader) = 65526 \<and>
   WriteFile plain_gzip (Some []) longHeader (Some (bytes_NewReader examplePayload)) =
     ((65543, None),
      Some ([0xFA, 0xFA, 0, 0] @ headerBuffer longHeader @ gzWriteAll plain_gzip examplePayload),
      Some (bytes_NewReader [])) \<and>
   ReadFile plain_gzip (Some (bytes_NewReader
     ([0xFA, 0xFA, 0, 0] @ headerBuffer longHeader @ gzWriteAll plain_gzip examplePayload))) =
     Return (Some \<lparr>Header = zeroHeader, decompressSource = None,
                    rawSource = bytes_NewReader
                      (headerBuffer longHeader @ gzWriteAll plain_gzip examplePayload),
                    currentSource = NoSource\<rparr>, Some EOF) \<and>
   WriteFile plain_gzip (Some []) testFileHeader (Some (bytes_NewReader examplePayload)) =
     ((44, None), Some exampleContainer, Some (bytes_NewReader [])) \<and>
   ReadFile plain_gzip (Some (iotest_OneByteReader exampleContainer)) =
     Return (Some \<lparr>Header = epochHeader, decompressSource = None,
                    rawSource = iotest_OneByteReader (drop 3 exampleContainer),
                    currentSource = RawSource\<rparr>, None) \<and>
   epochHeader \<noteq>
     testFileHeader\<lparr>UploadDate := time_Unix (unixSec (UploadDate testFileHeader)) 0\<rparr>"
proof -
  have rf: "ReadFile plain_gzip (Some (bytes_NewReader
     [0xFA, 0xFA, 0, 10, 0xFF, 0xFF, 0xFF, 0xFF, 0xFF, 0, 0, 0, 0, 0, 0x1F, 0x8B])) =
     Return (Some \<lparr>Header = zeroHeader\<lparr>UploadDate := time_Unix 1099511627775 0\<rparr>,
                    decompressSource = None, rawSource = bytes_NewReader [0x1F, 0x8B],
                    currentSource = RawSource\<rparr>, None)"
    unfolding ReadFile_Some ReadFileHeader_before_epoch by simp
  have ne: "zeroHeader\<lparr>UploadDate := time_Unix 1099511627775 0\<rparr> \<noteq>
     zeroHeader\<lparr>UploadDate := time_Unix (- 1) 0\<rparr>"
    by (simp add: time_Unix_def zeroHeader_def)
  have ll: "length (MimeType longHeader) + length (OriginalName longHeader) = 65526"
    by (simp add: longHeader_def epochHeader_def)
  from WriteFile_before_epoch rf ne ll WriteFile_longHeader ReadFile_longHeader
    WriteFile_example ReadFile_one_byte_reads [of plain_gzip] epochHeader_differs
  show ?thesis
    by blast
qed

end
